theory Spec2Isabelle
  imports Main "HOL-Library.Word"
begin

section \<open>The cluster channel of WuKongIM (pkg/cluster, type channel)\<close>

text \<open>
  The embedding follows the Go source function by function. A \<^verbatim>\<open>*channel\<close> is a record
  that every method takes and returns; an \<^verbatim>\<open>error\<close> result is an \<open>error option\<close>
  (\<open>None\<close> is Go's \<^verbatim>\<open>nil\<close>); a panic is the left summand of \<open>panic + 'a\<close>.
  The per-channel mutex only delimits regions that run without interleaving; in this
  sequential embedding every method body is such a region, so \<^verbatim>\<open>c.mu\<close> has no
  field. The tracing calls (\<^verbatim>\<open>trace.GlobalTrace\<close>, \<^verbatim>\<open>c.traceRecord\<close>) and the
  log lines (\<^verbatim>\<open>c.Debug\<close>, \<^verbatim>\<open>c.Warn\<close>, \<^verbatim>\<open>c.Error\<close>) only observe; they are left out,
  except where they can change a message or panic (see \<open>traceMessage\<close>).
\<close>

subsection \<open>Machine integers, logs and messages\<close>

type_synonym u8 = "8 word"
type_synonym u32 = "32 word"
type_synonym u64 = "64 word"

text \<open>\<^verbatim>\<open>replica.Log{Index, Term, Data}\<close> as \<^verbatim>\<open>proposeAndWaitCommits\<close> builds it.\<close>

record Log =
  Index :: u64
  Term :: u32
  Data :: "u8 list"

text \<open>
  Modelled from the spec: the declaration of \<^verbatim>\<open>replica.Message\<close> is not among the
  sources. The message kinds are those the spec lists for \<^verbatim>\<open>step\<close> and the source
  names; the fields are those the source reads or writes (\<^verbatim>\<open>Term\<close> and \<^verbatim>\<open>Index\<close>
  are \<open>MsgTerm\<close> and \<open>MsgIndex\<close> here, since \<open>Log\<close> has fields of the same name).
\<close>

datatype MsgType =
    MsgUnknown
  | MsgPropose
  | MsgAppointLeaderReq
  | MsgSync
  | MsgSyncResp
  | MsgStoreAppend
  | MsgStoreAppendResp
  | MsgApplyLogsReq
  | MsgApplyLogsResp

record Message =
  MsgType :: MsgType
  From :: u64
  To :: u64
  MsgTerm :: u32
  MsgIndex :: u64
  CommittedIndex :: u64
  AppliedIndex :: u64
  Logs :: "Log list"
  AppointmentLeader :: u64
  TraceIDs :: "nat list"
  SpanIDs :: "nat list"

text \<open>
  Modelled from the spec: \<^verbatim>\<open>replica.Ready\<close> is declared in the replica package, which
  is not among the sources; the spec calls it a batch of outbound actions. Its zero
  value \<^verbatim>\<open>replica.Ready{}\<close> is the empty batch.
\<close>

record Ready =
  Messages :: "Message list"

definition Ready_zero :: Ready where
  "Ready_zero = \<lparr>Messages = []\<rparr>"

subsection \<open>Errors and panics\<close>

text \<open>
  \<open>errors_New s\<close> is \<^verbatim>\<open>errors.New(s)\<close>; \<open>DeadlineExceeded\<close> is what
  \<^verbatim>\<open>timeoutCtx.Err()\<close> returns once the timeout context is done; \<open>ErrStopped\<close> is the
  cluster package's \<^verbatim>\<open>ErrStopped\<close> and \<open>ErrReactorStopped\<close> the server package's
  \<^verbatim>\<open>ErrReactorStopped\<close>.
\<close>

datatype error =
    errors_New string
  | DeadlineExceeded
  | ErrStopped
  | ErrReactorStopped

text \<open>
  Modelled from the spec: \<^verbatim>\<open>c.Panic\<close> is the logger's method (package wklog, not among
  the sources); the spec says that on such a failure the process aborts. \<open>Panic s\<close> is
  that abort. \<open>CloseOfClosedChannel\<close> and \<open>IndexOutOfRange\<close> are Go's run-time panics.
\<close>

datatype panic =
    Panic string
  | CloseOfClosedChannel
  | IndexOutOfRange

subsection \<open>The local store queue\<close>

text \<open>
  Modelled from the spec: \<^verbatim>\<open>localReplicaStoreQueue\<close> is not among the sources. The spec
  (4.4) describes a FIFO of a message with a stored flag: \<^verbatim>\<open>add\<close> appends with the
  flag false, \<^verbatim>\<open>setStored(index)\<close> finds the first entry matching the index, sets its
  flag and says whether it found one, \<^verbatim>\<open>firstIsStored\<close> reads the head's flag and
  \<^verbatim>\<open>removeFirst\<close> pops the head.
\<close>

record localReplicaStoreMsg =
  Message :: Message
  stored :: bool

type_synonym localReplicaStoreQueue = "localReplicaStoreMsg list"

definition add :: "localReplicaStoreQueue \<Rightarrow> Message \<Rightarrow> localReplicaStoreQueue" where
  "add q msg = q @ [\<lparr>Message = msg, stored = False\<rparr>]"

fun setStored :: "localReplicaStoreQueue \<Rightarrow> u64 \<Rightarrow> bool \<times> localReplicaStoreQueue" where
  "setStored [] index = (False, [])"
| "setStored (m # q) index =
     (if MsgIndex (Message m) = index then (True, m\<lparr>stored := True\<rparr> # q)
      else (case setStored q index of (found, q') \<Rightarrow> (found, m # q')))"

definition firstIsStored :: "localReplicaStoreQueue \<Rightarrow> bool" where
  "firstIsStored q = (case q of [] \<Rightarrow> False | m # _ \<Rightarrow> stored m)"

definition removeFirst ::
  "localReplicaStoreQueue \<Rightarrow> localReplicaStoreMsg option \<times> localReplicaStoreQueue" where
  "removeFirst q = (case q of [] \<Rightarrow> (None, []) | m # q' \<Rightarrow> (Some m, q'))"

subsection \<open>Collaborators of the channel\<close>

text \<open>
  The replica (\<^verbatim>\<open>c.rc\<close>), the commit wait (\<^verbatim>\<open>c.commitWait\<close>), the inbound message queue
  (\<^verbatim>\<open>c.messageQueue\<close>), the local metadata storage (\<^verbatim>\<open>c.localstorage\<close>) and the log
  storage (\<^verbatim>\<open>c.opts.MessageLogStorage\<close>) are declared outside the sources. Each is a
  state of an arbitrary type with the methods the channel calls on it, passed as
  parameters: a method takes the collaborator's state and returns its result with the
  new state, so that nothing about what they compute is assumed.
  \<open>tr_proposeTraceIDs\<close> stands for the trace and span ids that \<^verbatim>\<open>handleMessage\<close> reads
  from \<^verbatim>\<open>c.traceRecord\<close> for a sync request; \<open>time_Now\<close> is \<^verbatim>\<open>time.Now()\<close>.
\<close>

record ('rc, 'cw, 'mq, 'ls, 'st) collaborators =
  rc_Step :: "'rc \<Rightarrow> Message \<Rightarrow> error option \<times> 'rc"
  rc_LastLogIndex :: "'rc \<Rightarrow> u64"
  rc_Term :: "'rc \<Rightarrow> u32"
  rc_Ready :: "'rc \<Rightarrow> Ready \<times> 'rc"
  rc_HasReady :: "'rc \<Rightarrow> bool"
  rc_SetReplicas :: "'rc \<Rightarrow> u64 list \<Rightarrow> 'rc"
  rc_BecomeLeader :: "'rc \<Rightarrow> u32 \<Rightarrow> 'rc"
  rc_BecomeFollower :: "'rc \<Rightarrow> u32 \<Rightarrow> u64 \<Rightarrow> 'rc"
  rc_NewProposeMessage :: "'rc \<Rightarrow> u8 list \<Rightarrow> Message"
  rc_NewProposeMessageWithLogs :: "'rc \<Rightarrow> Log list \<Rightarrow> Message"
  rc_NewMsgStoreAppendResp :: "'rc \<Rightarrow> u64 \<Rightarrow> Message"
  rc_NewMsgApplyLogsRespMessage :: "'rc \<Rightarrow> u64 \<Rightarrow> Message"
  cw_addWaitIndex :: "'cw \<Rightarrow> u64 \<Rightarrow> error option \<times> 'cw"
  cw_commitIndex :: "'cw \<Rightarrow> u64 \<Rightarrow> 'cw"
  mq_Add :: "'mq \<Rightarrow> Message \<Rightarrow> (bool \<times> bool) \<times> 'mq"
  mq_Get :: "'mq \<Rightarrow> Message list \<times> 'mq"
  ls_setAppliedIndex :: "'ls \<Rightarrow> string \<Rightarrow> u64 \<Rightarrow> error option \<times> 'ls"
  st_AppendLog :: "'st \<Rightarrow> string \<Rightarrow> Log list \<Rightarrow> error option \<times> 'st"
  ChannelKey :: "string \<Rightarrow> u8 \<Rightarrow> string"
  tr_proposeTraceIDs :: "Message \<Rightarrow> nat list \<times> nat list"
  time_Now :: nat

subsection \<open>The channel\<close>

text \<open>
  \<open>doneC\<close> is the state of the Go channel \<^verbatim>\<open>c.doneC\<close>, which is only ever closed.
  \<open>spawned\<close> lists the goroutines the channel has started with \<^verbatim>\<open>go\<close>, oldest first;
  \<open>appendLogs\<close> and \<open>applyLogs\<close> below are what they run.
\<close>

datatype chan_state = Open | Closed

text \<open>
  Modelled from the spec: the declaration of \<^verbatim>\<open>wkstore.ChannelClusterConfig\<close> is not
  among the sources; the spec (3) gives its fields, of which the source reads
  \<^verbatim>\<open>Replicas\<close>, \<^verbatim>\<open>LeaderId\<close> and \<^verbatim>\<open>Term\<close> (\<open>CfgTerm\<close> here, since \<open>Log\<close> has a field
  \<open>Term\<close>).
\<close>

record ChannelClusterConfig =
  ChannelID :: string
  ChannelType :: u8
  CfgTerm :: u32
  LeaderId :: u64
  Replicas :: "u64 list"

datatype goroutine = go_appendLogs Message | go_applyLogs Message

record ('rc, 'cw, 'mq, 'ls, 'st) channel =
  channelID :: string
  channelType :: u8
  rc :: 'rc
  destroy :: bool
  clusterConfig :: ChannelClusterConfig
  NodeID :: u64
  MessageLogStorage :: 'st
  lastActivity :: nat
  commitWait :: 'cw
  doneC :: chan_state
  localstorage :: 'ls
  messageQueue :: 'mq
  appendLogStoreQueue :: localReplicaStoreQueue
  applyLogStoreQueue :: localReplicaStoreQueue
  spawned :: "goroutine list"

text \<open>
  \<^verbatim>\<open>updateClusterConfig\<close>, \<^verbatim>\<open>updateClusterConfigLeaderId\<close>,
  \<^verbatim>\<open>updateClusterConfigLeaderIdAndTerm\<close> and \<^verbatim>\<open>becomeLeader\<close> return nothing and do not
  look at the destroy flag.
\<close>

definition updateClusterConfig ::
  "('rc, 'cw, 'mq, 'ls, 'st) collaborators \<Rightarrow> ('rc, 'cw, 'mq, 'ls, 'st) channel
    \<Rightarrow> ChannelClusterConfig \<Rightarrow> ('rc, 'cw, 'mq, 'ls, 'st) channel" where
  "updateClusterConfig ops c cfg =
     (let c1 = c\<lparr>clusterConfig := cfg\<rparr>;
          c2 = c1\<lparr>rc := rc_SetReplicas ops (rc c1) (Replicas cfg)\<rparr>
      in if LeaderId cfg = NodeID c2
         then c2\<lparr>rc := rc_BecomeLeader ops (rc c2) (CfgTerm cfg)\<rparr>
         else c2\<lparr>rc := rc_BecomeFollower ops (rc c2) (CfgTerm cfg) (LeaderId cfg)\<rparr>)"

definition updateClusterConfigLeaderId ::
  "('rc, 'cw, 'mq, 'ls, 'st) channel \<Rightarrow> u64 \<Rightarrow> ('rc, 'cw, 'mq, 'ls, 'st) channel" where
  "updateClusterConfigLeaderId c leaderId =
     c\<lparr>clusterConfig := (clusterConfig c)\<lparr>LeaderId := leaderId\<rparr>\<rparr>"

definition updateClusterConfigLeaderIdAndTerm ::
  "('rc, 'cw, 'mq, 'ls, 'st) channel \<Rightarrow> u32 \<Rightarrow> u64 \<Rightarrow> ('rc, 'cw, 'mq, 'ls, 'st) channel" where
  "updateClusterConfigLeaderIdAndTerm c tm leaderId =
     c\<lparr>clusterConfig := (clusterConfig c)\<lparr>CfgTerm := tm, LeaderId := leaderId\<rparr>\<rparr>"

definition becomeLeader ::
  "('rc, 'cw, 'mq, 'ls, 'st) collaborators \<Rightarrow> ('rc, 'cw, 'mq, 'ls, 'st) channel \<Rightarrow> u32
    \<Rightarrow> ('rc, 'cw, 'mq, 'ls, 'st) channel" where
  "becomeLeader ops c tm = c\<lparr>rc := rc_BecomeLeader ops (rc c) tm\<rparr>"

definition ready ::
  "('rc, 'cw, 'mq, 'ls, 'st) collaborators \<Rightarrow> ('rc, 'cw, 'mq, 'ls, 'st) channel
    \<Rightarrow> Ready \<times> ('rc, 'cw, 'mq, 'ls, 'st) channel" where
  "ready ops c =
     (if destroy c then (Ready_zero, c)
      else (case rc_Ready ops (rc c) of (rd, r') \<Rightarrow> (rd, c\<lparr>rc := r'\<rparr>)))"

definition hasReady ::
  "('rc, 'cw, 'mq, 'ls, 'st) collaborators \<Rightarrow> ('rc, 'cw, 'mq, 'ls, 'st) channel \<Rightarrow> bool" where
  "hasReady ops c = (if destroy c then False else rc_HasReady ops (rc c))"

definition step ::
  "('rc, 'cw, 'mq, 'ls, 'st) collaborators \<Rightarrow> ('rc, 'cw, 'mq, 'ls, 'st) channel \<Rightarrow> Message
    \<Rightarrow> error option \<times> ('rc, 'cw, 'mq, 'ls, 'st) channel" where
  "step ops c msg =
     (if destroy c then (Some (errors_New ''channel destroy, can not step''), c)
      else (case rc_Step ops (rc c) msg of
              (err, r') \<Rightarrow> (err, c\<lparr>lastActivity := time_Now ops, rc := r'\<rparr>)))"

definition stepLock ::
  "('rc, 'cw, 'mq, 'ls, 'st) collaborators \<Rightarrow> ('rc, 'cw, 'mq, 'ls, 'st) channel \<Rightarrow> Message
    \<Rightarrow> error option \<times> ('rc, 'cw, 'mq, 'ls, 'st) channel" where
  "stepLock ops c msg = step ops c msg"

definition propose ::
  "('rc, 'cw, 'mq, 'ls, 'st) collaborators \<Rightarrow> ('rc, 'cw, 'mq, 'ls, 'st) channel \<Rightarrow> u8 list
    \<Rightarrow> error option \<times> ('rc, 'cw, 'mq, 'ls, 'st) channel" where
  "propose ops c data =
     (if destroy c then (Some (errors_New ''channel destroy, can not propose''), c)
      else stepLock ops c (rc_NewProposeMessage ops (rc c) data))"

subsection \<open>Waiting in a select statement\<close>

text \<open>
  \<^verbatim>\<open>proposeAndWaitCommits\<close> ends in a \<^verbatim>\<open>select\<close> over three channels. What other
  goroutines do to these channels while the caller waits is the environment's part: an
  \<open>observation\<close> says, for one moment at which the blocked select is polled, whether the
  wait channel returned by \<^verbatim>\<open>addWaitIndex\<close> has been signalled, how much time has
  passed since \<^verbatim>\<open>context.WithTimeout\<close> started the timer, whether \<^verbatim>\<open>c.doneC\<close> has
  been closed, and whether the caller's own \<^verbatim>\<open>ctx\<close> has been cancelled. Go's select
  takes one of the cases that can proceed, chosen pseudo-randomly (\<open>pick\<close>), and blocks
  when none can. The list of observations is the wait as far as it is observed: the
  result \<open>None\<close> says that the select is still blocked at its end.
\<close>

record observation =
  waitC_ready :: bool
  elapsed :: int
  doneC_closed :: bool
  ctx_Done :: bool
  pick :: nat

datatype select_case = case_waitC | case_timeoutCtx_Done | case_doneC

definition select_ready :: "nat \<Rightarrow> (bool \<times> 'a) list \<Rightarrow> 'a option" where
  "select_ready n cases =
     (case map snd (filter fst cases) of
        [] \<Rightarrow> None
      | r # rs \<Rightarrow> Some ((r # rs) ! (n mod length (r # rs))))"

text \<open>
  The three cases of the select at the end of \<^verbatim>\<open>proposeAndWaitCommits\<close>, in the order
  of the source: \<^verbatim>\<open><-waitC\<close>, \<^verbatim>\<open><-timeoutCtx.Done()\<close>, \<^verbatim>\<open><-c.doneC\<close>. The timeout context is
  done once the time passed reaches \<open>timeout\<close>.
\<close>

definition select_cases :: "int \<Rightarrow> observation \<Rightarrow> (bool \<times> select_case) list" where
  "select_cases timeout ob =
     [(waitC_ready ob, case_waitC),
      (timeout \<le> elapsed ob, case_timeoutCtx_Done),
      (doneC_closed ob, case_doneC)]"

fun wait_select :: "int \<Rightarrow> observation list \<Rightarrow> select_case option" where
  "wait_select timeout [] = None"
| "wait_select timeout (ob # obs) =
     (case select_ready (pick ob) (select_cases timeout ob) of
        None \<Rightarrow> wait_select timeout obs
      | Some k \<Rightarrow> Some k)"

text \<open>
  One of the three events the select waits for has happened at an observation: the
  wait channel has been signalled, the timeout has expired, or the done channel has
  been closed. The cancellation of the caller's \<^verbatim>\<open>ctx\<close> is not among them.
\<close>

definition can_proceed :: "int \<Rightarrow> observation \<Rightarrow> bool" where
  "can_proceed timeout ob = (waitC_ready ob \<or> timeout \<le> elapsed ob \<or> doneC_closed ob)"

subsection \<open>Proposing\<close>

text \<open>
  The loop of \<^verbatim>\<open>proposeAndWaitCommits\<close> that builds the logs: \<open>i\<close> is the loop index,
  \<open>logs\<close> the slice built so far. \<^verbatim>\<open>uint64(1+i)\<close> and the addition are 64-bit.
\<close>

fun build_logs ::
  "('rc, 'cw, 'mq, 'ls, 'st) collaborators \<Rightarrow> 'rc \<Rightarrow> nat \<Rightarrow> u8 list list \<Rightarrow> Log list
    \<Rightarrow> Log list" where
  "build_logs ops r i [] logs = logs"
| "build_logs ops r i (d # ds) logs =
     build_logs ops r (Suc i) ds
       (logs @ [\<lparr>Index = rc_LastLogIndex ops r + of_nat (1 + i), Term = rc_Term ops r, Data = d\<rparr>])"

text \<open>
  \<^verbatim>\<open>proposeAndWaitCommits(ctx, data, timeout)\<close>. The result is \<open>None\<close> while the call is
  blocked in its select, \<open>Some (Inl err)\<close> for \<^verbatim>\<open>(nil, err)\<close> and \<open>Some (Inr seqs)\<close> for
  \<^verbatim>\<open>(seqs, nil)\<close>. \<open>ctx\<close> is only handed to the tracer. \<open>logs\<close> is not empty where
  \<open>last\<close> reads it, since \<open>data\<close> is not.
\<close>

definition proposeAndWaitCommits ::
  "('rc, 'cw, 'mq, 'ls, 'st) collaborators \<Rightarrow> ('rc, 'cw, 'mq, 'ls, 'st) channel \<Rightarrow> 'ctx
    \<Rightarrow> u8 list list \<Rightarrow> int \<Rightarrow> observation list
    \<Rightarrow> (error + u64 list) option \<times> ('rc, 'cw, 'mq, 'ls, 'st) channel" where
  "proposeAndWaitCommits ops c ctx data timeout obs =
     (if length data = 0 then (Some (Inl (errors_New ''data is empty'')), c)
      else if destroy c then (Some (Inl (errors_New ''channel destroy, can not propose'')), c)
      else
        (let logs = build_logs ops (rc c) 0 data [];
             lastLog = last logs
         in case cw_addWaitIndex ops (commitWait c) (Index lastLog) of
              (Some err, cw') \<Rightarrow> (Some (Inl err), c\<lparr>commitWait := cw'\<rparr>)
            | (None, cw') \<Rightarrow>
                (case step ops (c\<lparr>commitWait := cw'\<rparr>)
                        (rc_NewProposeMessageWithLogs ops (rc c) logs) of
                   (Some err, c') \<Rightarrow> (Some (Inl err), c')
                 | (None, c') \<Rightarrow>
                     (case wait_select timeout obs of
                        None \<Rightarrow> (None, c')
                      | Some case_waitC \<Rightarrow> (Some (Inr (map Index logs)), c')
                      | Some case_timeoutCtx_Done \<Rightarrow> (Some (Inl DeadlineExceeded), c')
                      | Some case_doneC \<Rightarrow> (Some (Inl ErrStopped), c')))))"

definition proposeAndWaitCommit ::
  "('rc, 'cw, 'mq, 'ls, 'st) collaborators \<Rightarrow> ('rc, 'cw, 'mq, 'ls, 'st) channel \<Rightarrow> 'ctx
    \<Rightarrow> u8 list \<Rightarrow> int \<Rightarrow> observation list
    \<Rightarrow> (error + u64) option \<times> ('rc, 'cw, 'mq, 'ls, 'st) channel" where
  "proposeAndWaitCommit ops c ctx data timeout obs =
     (if destroy c then (Some (Inl (errors_New ''channel destroy, can not propose'')), c)
      else (case proposeAndWaitCommits ops c ctx [data] timeout obs of
              (None, c') \<Rightarrow> (None, c')
            | (Some (Inl err), c') \<Rightarrow> (Some (Inl err), c')
            | (Some (Inr lastIndexs), c') \<Rightarrow>
                (case lastIndexs of
                   [] \<Rightarrow> (Some (Inl (errors_New ''lastIndexs is empty'')), c')
                 | x # _ \<Rightarrow> (Some (Inr x), c'))))"

subsection \<open>Destroying\<close>

text \<open>Go's \<^verbatim>\<open>close(ch)\<close>: closing a channel that is already closed panics.\<close>

definition close :: "chan_state \<Rightarrow> panic + chan_state" where
  "close ch = (case ch of Open \<Rightarrow> Inr Closed | Closed \<Rightarrow> Inl CloseOfClosedChannel)"

definition makeDestroy ::
  "('rc, 'cw, 'mq, 'ls, 'st) channel \<Rightarrow> panic + ('rc, 'cw, 'mq, 'ls, 'st) channel" where
  "makeDestroy c =
     (let c1 = c\<lparr>destroy := True\<rparr>
      in case close (doneC c1) of
           Inl p \<Rightarrow> Inl p
         | Inr ch \<Rightarrow> Inr (c1\<lparr>doneC := ch\<rparr>))"

text \<open>\<open>n\<close> calls of \<^verbatim>\<open>makeDestroy()\<close> in a row; a panic ends the run.\<close>

fun makeDestroy_times ::
  "nat \<Rightarrow> ('rc, 'cw, 'mq, 'ls, 'st) channel \<Rightarrow> panic + ('rc, 'cw, 'mq, 'ls, 'st) channel" where
  "makeDestroy_times 0 c = Inr c"
| "makeDestroy_times (Suc n) c =
     (case makeDestroy c of Inl p \<Rightarrow> Inl p | Inr c' \<Rightarrow> makeDestroy_times n c')"

definition isDestroy :: "('rc, 'cw, 'mq, 'ls, 'st) channel \<Rightarrow> bool" where
  "isDestroy c = destroy c"

subsection \<open>Local side effects: appending and applying\<close>

definition handleStoreAppend ::
  "('rc, 'cw, 'mq, 'ls, 'st) collaborators \<Rightarrow> ('rc, 'cw, 'mq, 'ls, 'st) channel \<Rightarrow> Message
    \<Rightarrow> ('rc, 'cw, 'mq, 'ls, 'st) channel" where
  "handleStoreAppend ops c msg =
     (if length (Logs msg) = 0 then c
      else
        (let lastLog = last (Logs msg)
         in c\<lparr>appendLogStoreQueue :=
                add (appendLogStoreQueue c) (rc_NewMsgStoreAppendResp ops (rc c) (Index lastLog)),
              spawned := spawned c @ [go_appendLogs msg]\<rparr>))"

text \<open>
  The goroutine \<^verbatim>\<open>appendLogs(msg)\<close>. \<^verbatim>\<open>msg.Logs[0]\<close> panics on an empty slice;
  \<^verbatim>\<open>c.Panic\<close> aborts.
\<close>

definition appendLogs ::
  "('rc, 'cw, 'mq, 'ls, 'st) collaborators \<Rightarrow> ('rc, 'cw, 'mq, 'ls, 'st) channel \<Rightarrow> Message
    \<Rightarrow> panic + ('rc, 'cw, 'mq, 'ls, 'st) channel" where
  "appendLogs ops c msg =
     (let shardNo = ChannelKey ops (channelID c) (channelType c)
      in case Logs msg of
           [] \<Rightarrow> Inl IndexOutOfRange
         | firstLog # _ \<Rightarrow>
             (let lastLog = last (Logs msg)
              in case st_AppendLog ops (MessageLogStorage c) shardNo (Logs msg) of
                   (Some err, st') \<Rightarrow> Inl (Panic ''append log error'')
                 | (None, st') \<Rightarrow>
                     (case setStored (appendLogStoreQueue c) (Index lastLog) of
                        (False, q') \<Rightarrow> Inl (Panic ''set stored failed'')
                      | (True, q') \<Rightarrow>
                          Inr (c\<lparr>MessageLogStorage := st', appendLogStoreQueue := q'\<rparr>))))"

definition handleApplyLogsReq ::
  "('rc, 'cw, 'mq, 'ls, 'st) collaborators \<Rightarrow> ('rc, 'cw, 'mq, 'ls, 'st) channel \<Rightarrow> Message
    \<Rightarrow> ('rc, 'cw, 'mq, 'ls, 'st) channel" where
  "handleApplyLogsReq ops c msg =
     (if CommittedIndex msg \<le> 0 \<or> AppliedIndex msg \<ge> CommittedIndex msg then c
      else c\<lparr>applyLogStoreQueue :=
                add (applyLogStoreQueue c)
                  (rc_NewMsgApplyLogsRespMessage ops (rc c) (CommittedIndex msg)),
              spawned := spawned c @ [go_applyLogs msg]\<rparr>)"

text \<open>
  The goroutine \<^verbatim>\<open>applyLogs(msg)\<close>: it signals the commit wait, writes the applied
  index, and on an error of that write logs it and returns.
\<close>

definition applyLogs ::
  "('rc, 'cw, 'mq, 'ls, 'st) collaborators \<Rightarrow> ('rc, 'cw, 'mq, 'ls, 'st) channel \<Rightarrow> Message
    \<Rightarrow> panic + ('rc, 'cw, 'mq, 'ls, 'st) channel" where
  "applyLogs ops c msg =
     (let c1 = c\<lparr>commitWait := cw_commitIndex ops (commitWait c) (CommittedIndex msg)\<rparr>;
          shardNo = ChannelKey ops (channelID c1) (channelType c1)
      in case ls_setAppliedIndex ops (localstorage c1) shardNo (CommittedIndex msg) of
           (Some err, ls') \<Rightarrow> Inr (c1\<lparr>localstorage := ls'\<rparr>)
         | (None, ls') \<Rightarrow>
             (case setStored (applyLogStoreQueue c1) (CommittedIndex msg) of
                (False, q') \<Rightarrow> Inl (Panic ''applyLogs: set stored failed'')
              | (True, q') \<Rightarrow> Inr (c1\<lparr>localstorage := ls', applyLogStoreQueue := q'\<rparr>)))"

definition handleLocalMsg ::
  "('rc, 'cw, 'mq, 'ls, 'st) collaborators \<Rightarrow> ('rc, 'cw, 'mq, 'ls, 'st) channel \<Rightarrow> Message
    \<Rightarrow> ('rc, 'cw, 'mq, 'ls, 'st) channel" where
  "handleLocalMsg ops c msg =
     (if destroy c then c
      else if To msg \<noteq> NodeID c then c
      else
        (let c1 = c\<lparr>lastActivity := time_Now ops\<rparr>
         in case MsgType msg of
              MsgStoreAppend \<Rightarrow> handleStoreAppend ops c1 msg
            | MsgApplyLogsReq \<Rightarrow> handleApplyLogsReq ops c1 msg
            | _ \<Rightarrow> c1))"

subsection \<open>Inbound messages\<close>

text \<open>
  The tracing part of \<^verbatim>\<open>handleMessage\<close>, as far as it acts on the message: for a sync
  request the trace and span ids of the open propose spans replace the message's own
  when there are any; for a sync response \<^verbatim>\<open>msg.SpanIDs[i]\<close> is read for every index of
  \<^verbatim>\<open>msg.TraceIDs\<close>, which panics when \<^verbatim>\<open>SpanIDs\<close> is the shorter one.
\<close>

definition traceMessage ::
  "('rc, 'cw, 'mq, 'ls, 'st) collaborators \<Rightarrow> Message \<Rightarrow> panic + Message" where
  "traceMessage ops msg =
     (if MsgType msg = MsgSync then
        (case tr_proposeTraceIDs ops msg of
           ([], _) \<Rightarrow> Inr msg
         | (t # ts, spanIDs) \<Rightarrow> Inr (msg\<lparr>TraceIDs := t # ts, SpanIDs := spanIDs\<rparr>))
      else if MsgType msg = MsgSyncResp then
        (if length (SpanIDs msg) < length (TraceIDs msg) then Inl IndexOutOfRange else Inr msg)
      else Inr msg)"

definition handleMessage ::
  "('rc, 'cw, 'mq, 'ls, 'st) collaborators \<Rightarrow> ('rc, 'cw, 'mq, 'ls, 'st) channel \<Rightarrow> Message
    \<Rightarrow> panic + (error option \<times> ('rc, 'cw, 'mq, 'ls, 'st) channel)" where
  "handleMessage ops c msg =
     (if destroy c then Inr (Some (errors_New ''channel destroy, can not handleMessage''), c)
      else
        (let c1 = c\<lparr>lastActivity := time_Now ops\<rparr>
         in case traceMessage ops msg of
              Inl p \<Rightarrow> Inl p
            | Inr msg' \<Rightarrow>
                (case mq_Add ops (messageQueue c1) msg' of
                   ((added, stopped), mq') \<Rightarrow>
                     (if \<not> added \<or> stopped
                      then Inr (Some (errors_New ''messageQueue add failed''),
                                c1\<lparr>messageQueue := mq'\<rparr>)
                      else Inr (None, c1\<lparr>messageQueue := mq'\<rparr>)))))"

text \<open>The loop of \<^verbatim>\<open>handleReceivedMessages\<close>: it returns at the first step that fails.\<close>

fun stepLock_each ::
  "('rc, 'cw, 'mq, 'ls, 'st) collaborators \<Rightarrow> ('rc, 'cw, 'mq, 'ls, 'st) channel \<Rightarrow> Message list
    \<Rightarrow> error option \<times> ('rc, 'cw, 'mq, 'ls, 'st) channel" where
  "stepLock_each ops c [] = (None, c)"
| "stepLock_each ops c (msg # msgs) =
     (case stepLock ops c msg of
        (Some err, c') \<Rightarrow> (Some err, c')
      | (None, c') \<Rightarrow> stepLock_each ops c' msgs)"

definition handleReceivedMessages ::
  "('rc, 'cw, 'mq, 'ls, 'st) collaborators \<Rightarrow> ('rc, 'cw, 'mq, 'ls, 'st) channel
    \<Rightarrow> error option \<times> ('rc, 'cw, 'mq, 'ls, 'st) channel" where
  "handleReceivedMessages ops c =
     (if destroy c then (Some (errors_New ''channel destroy, can not handle message''), c)
      else (case mq_Get ops (messageQueue c) of
              (msgs, mq') \<Rightarrow> stepLock_each ops (c\<lparr>messageQueue := mq'\<rparr>) msgs))"

subsection \<open>Handing stored results back to the replica\<close>

text \<open>
  The two loops of \<^verbatim>\<open>handleLocalStoreMsgs\<close>. Each runs while \<^verbatim>\<open>firstIsStored()\<close> holds,
  pops with \<^verbatim>\<open>removeFirst()\<close> (leaving the loop when there was nothing to pop) and steps
  the popped message under the lock; a step that fails reaches \<^verbatim>\<open>c.Panic\<close>. A step
  never touches the queues, so each iteration shortens the queue it reads.
\<close>

lemma stepLock_appendLogStoreQueue:
  "stepLock ops c msg = (err, c') \<Longrightarrow> appendLogStoreQueue c' = appendLogStoreQueue c"
  by (auto simp: stepLock_def step_def split: if_splits prod.splits)

lemma stepLock_applyLogStoreQueue:
  "stepLock ops c msg = (err, c') \<Longrightarrow> applyLogStoreQueue c' = applyLogStoreQueue c"
  by (auto simp: stepLock_def step_def split: if_splits prod.splits)

lemma removeFirst_length:
  "removeFirst q = (Some m, q') \<Longrightarrow> length q' < length q"
  by (auto simp: removeFirst_def split: list.splits)

function drain_appendLogStoreQueue ::
  "('rc, 'cw, 'mq, 'ls, 'st) collaborators \<Rightarrow> ('rc, 'cw, 'mq, 'ls, 'st) channel
    \<Rightarrow> panic + ('rc, 'cw, 'mq, 'ls, 'st) channel" where
  "drain_appendLogStoreQueue ops c =
     (if firstIsStored (appendLogStoreQueue c) then
        (case removeFirst (appendLogStoreQueue c) of
           (None, q') \<Rightarrow> Inr (c\<lparr>appendLogStoreQueue := q'\<rparr>)
         | (Some msg, q') \<Rightarrow>
             (case stepLock ops (c\<lparr>appendLogStoreQueue := q'\<rparr>) (Message msg) of
                (Some err, c') \<Rightarrow> Inl (Panic ''step local store message failed'')
              | (None, c') \<Rightarrow> drain_appendLogStoreQueue ops c'))
      else Inr c)"
  by pat_completeness auto
termination
  apply (relation "measure (\<lambda>(ops, c). length (appendLogStoreQueue c))")
   apply simp
  apply (auto dest!: stepLock_appendLogStoreQueue [OF sym] removeFirst_length [OF sym])
  done

declare drain_appendLogStoreQueue.simps [simp del]

function drain_applyLogStoreQueue ::
  "('rc, 'cw, 'mq, 'ls, 'st) collaborators \<Rightarrow> ('rc, 'cw, 'mq, 'ls, 'st) channel
    \<Rightarrow> panic + ('rc, 'cw, 'mq, 'ls, 'st) channel" where
  "drain_applyLogStoreQueue ops c =
     (if firstIsStored (applyLogStoreQueue c) then
        (case removeFirst (applyLogStoreQueue c) of
           (None, q') \<Rightarrow> Inr (c\<lparr>applyLogStoreQueue := q'\<rparr>)
         | (Some msg, q') \<Rightarrow>
             (case stepLock ops (c\<lparr>applyLogStoreQueue := q'\<rparr>) (Message msg) of
                (Some err, c') \<Rightarrow>
                  Inl (Panic ''applyLogStoreQueue: step local store message failed'')
              | (None, c') \<Rightarrow> drain_applyLogStoreQueue ops c'))
      else Inr c)"
  by pat_completeness auto
termination
  apply (relation "measure (\<lambda>(ops, c). length (applyLogStoreQueue c))")
   apply simp
  apply (auto dest!: stepLock_applyLogStoreQueue [OF sym] removeFirst_length [OF sym])
  done

declare drain_applyLogStoreQueue.simps [simp del]

definition handleLocalStoreMsgs ::
  "('rc, 'cw, 'mq, 'ls, 'st) collaborators \<Rightarrow> ('rc, 'cw, 'mq, 'ls, 'st) channel
    \<Rightarrow> panic + (error option \<times> ('rc, 'cw, 'mq, 'ls, 'st) channel)" where
  "handleLocalStoreMsgs ops c =
     (if destroy c then Inr (Some (errors_New ''channel destroy, can not handle message''), c)
      else (case drain_appendLogStoreQueue ops c of
              Inl p \<Rightarrow> Inl p
            | Inr c1 \<Rightarrow>
                (case drain_applyLogStoreQueue ops c1 of
                   Inl p \<Rightarrow> Inl p
                 | Inr c2 \<Rightarrow> Inr (None, c2))))"

text \<open>
  What a list of messages does to the replica when they are stepped one after the other:
  the replica's new state when every step succeeds, \<open>None\<close> when one of them fails. It
  is the yardstick for what \<^verbatim>\<open>handleLocalStoreMsgs\<close> hands to the replica.
\<close>

fun step_all ::
  "('rc, 'cw, 'mq, 'ls, 'st) collaborators \<Rightarrow> 'rc \<Rightarrow> Message list \<Rightarrow> 'rc option" where
  "step_all ops r [] = Some r"
| "step_all ops r (msg # msgs) =
     (case rc_Step ops r msg of
        (Some err, r') \<Rightarrow> None
      | (None, r') \<Rightarrow> step_all ops r' msgs)"

section \<open>The reactor shard (package server, type channelReactorSub)\<close>

text \<open>
  \<^verbatim>\<open>stepWait(ch, action)\<close> hands a request to the loop of the shard and waits for the
  loop's answer, in two select statements. The request carries the channel (which may
  be nil), the action and the call's own answer channel \<^verbatim>\<open>waitC\<close> (the field says
  whether the request has one; \<^verbatim>\<open>stepWait\<close> always makes one). The server's
  \<^verbatim>\<open>channel\<close> type is not among the sources: its \<^verbatim>\<open>step\<close> is the parameter \<open>ch_step\<close>.
\<close>

record ('ch, 'act) stepChannel =
  ch :: "'ch option"
  action :: 'act
  waitC :: bool













section \<open>Stand-in collaborators for evaluation\<close>

text \<open>
  The theorems below hold for all collaborators. To evaluate them at concrete inputs
  they are applied to the simplest stand-ins: a replica that accepts and records every
  message and takes the term it is given when it becomes leader or follower, a commit
  wait that lists the awaited indices, an unbounded message queue, and two storages that
  fail a given number of calls before they succeed. The response messages of the
  stand-in replica carry the index they are asked for.
\<close>

record sample_replica =
  sr_lastLogIndex :: u64
  sr_term :: u32
  sr_stepped :: "Message list"

definition sample_message :: "MsgType \<Rightarrow> u64 \<Rightarrow> Message" where
  "sample_message t i =
     \<lparr>MsgType = t, From = 1, To = 1, MsgTerm = 0, MsgIndex = i, CommittedIndex = 0,
      AppliedIndex = 0, Logs = [], AppointmentLeader = 0, TraceIDs = [], SpanIDs = []\<rparr>"

definition sample_ops ::
  "(sample_replica, u64 list, Message list, nat \<times> u64, nat \<times> Log list) collaborators" where
  "sample_ops =
     \<lparr>rc_Step = (\<lambda>r m. (None, r\<lparr>sr_stepped := sr_stepped r @ [m]\<rparr>)),
      rc_LastLogIndex = sr_lastLogIndex,
      rc_Term = sr_term,
      rc_Ready = (\<lambda>r. (Ready_zero, r)),
      rc_HasReady = (\<lambda>r. False),
      rc_SetReplicas = (\<lambda>r replicas. r),
      rc_BecomeLeader = (\<lambda>r t. r\<lparr>sr_term := t\<rparr>),
      rc_BecomeFollower = (\<lambda>r t leader. r\<lparr>sr_term := t\<rparr>),
      rc_NewProposeMessage = (\<lambda>r d. (sample_message MsgPropose 0)
         \<lparr>Logs := [\<lparr>Index = sr_lastLogIndex r + 1, Term = sr_term r, Data = d\<rparr>]\<rparr>),
      rc_NewProposeMessageWithLogs = (\<lambda>r ls. (sample_message MsgPropose 0)\<lparr>Logs := ls\<rparr>),
      rc_NewMsgStoreAppendResp = (\<lambda>r i. sample_message MsgStoreAppendResp i),
      rc_NewMsgApplyLogsRespMessage = (\<lambda>r i. sample_message MsgApplyLogsResp i),
      cw_addWaitIndex = (\<lambda>w i. (None, w @ [i])),
      cw_commitIndex = (\<lambda>w k. filter (\<lambda>i. k < i) w),
      mq_Add = (\<lambda>q m. ((True, False), q @ [m])),
      mq_Get = (\<lambda>q. (q, [])),
      ls_setAppliedIndex = (\<lambda>(n, a) k i.
         if 0 < n then (Some (errors_New ''write failed''), (n - 1, a)) else (None, (n, i))),
      st_AppendLog = (\<lambda>(n, l) k ls.
         if 0 < n then (Some (errors_New ''write failed''), (n - 1, l)) else (None, (n, l @ ls))),
      ChannelKey = (\<lambda>channelID channelType. channelID),
      tr_proposeTraceIDs = (\<lambda>m. ([], [])),
      time_Now = 0\<rparr>"

definition sample_channel ::
  "(sample_replica, u64 list, Message list, nat \<times> u64, nat \<times> Log list) channel" where
  "sample_channel =
     \<lparr>channelID = ''c1'', channelType = 2,
      rc = \<lparr>sr_lastLogIndex = 7, sr_term = 3, sr_stepped = []\<rparr>,
      destroy = False,
      clusterConfig = \<lparr>ChannelID = ''c1'', ChannelType = 2, CfgTerm = 3, LeaderId = 1,
                       Replicas = [1, 2, 3]\<rparr>,
      NodeID = 1, MessageLogStorage = (0, []), lastActivity = 0,
      commitWait = [], doneC = Open, localstorage = (0, 0), messageQueue = [],
      appendLogStoreQueue = [], applyLogStoreQueue = [], spawned = []\<rparr>"

text \<open>A cluster configuration of term 9 that names node 2 as the leader.\<close>

definition sample_config :: ChannelClusterConfig where
  "sample_config =
     \<lparr>ChannelID = ''c1'', ChannelType = 2, CfgTerm = 9, LeaderId = 2, Replicas = [1, 2, 3]\<rparr>"

text \<open>A channel with results waiting in both local store queues.\<close>

definition sample_queued ::
  "(sample_replica, u64 list, Message list, nat \<times> u64, nat \<times> Log list) channel" where
  "sample_queued = sample_channel
     \<lparr>appendLogStoreQueue :=
        [\<lparr>Message = sample_message MsgStoreAppendResp 8, stored = True\<rparr>,
         \<lparr>Message = sample_message MsgStoreAppendResp 9, stored = False\<rparr>,
         \<lparr>Message = sample_message MsgStoreAppendResp 10, stored = True\<rparr>],
      applyLogStoreQueue :=
        [\<lparr>Message = sample_message MsgApplyLogsResp 5, stored = False\<rparr>,
         \<lparr>Message = sample_message MsgApplyLogsResp 6, stored = True\<rparr>]\<rparr>"

text \<open>
  A run in which the write of the applied index fails once: a channel whose local
  storage fails its next write and on which a proposer waits for index 1; the request to
  apply up to \<open>k\<close>; the channel after the request for 1 was handled and its
  \<^verbatim>\<open>applyLogs\<close> ran into the failure; and the channel after the request for 2 was
  handled and its \<^verbatim>\<open>applyLogs\<close> succeeded.
\<close>

definition sample_apply_req :: "u64 \<Rightarrow> Message" where
  "sample_apply_req k = (sample_message MsgApplyLogsReq 0)\<lparr>CommittedIndex := k, AppliedIndex := 0\<rparr>"

definition sample_failing_storage ::
  "(sample_replica, u64 list, Message list, nat \<times> u64, nat \<times> Log list) channel" where
  "sample_failing_storage = sample_channel\<lparr>localstorage := (1, 0), commitWait := [1]\<rparr>"

definition sample_after_failure ::
  "(sample_replica, u64 list, Message list, nat \<times> u64, nat \<times> Log list) channel" where
  "sample_after_failure = sample_channel
     \<lparr>applyLogStoreQueue := [\<lparr>Message = sample_message MsgApplyLogsResp 1, stored = False\<rparr>],
      spawned := [go_applyLogs (sample_apply_req 1)]\<rparr>"

definition sample_after_next_apply ::
  "(sample_replica, u64 list, Message list, nat \<times> u64, nat \<times> Log list) channel" where
  "sample_after_next_apply = sample_channel
     \<lparr>localstorage := (0, 2),
      applyLogStoreQueue := [\<lparr>Message = sample_message MsgApplyLogsResp 1, stored = False\<rparr>,
                             \<lparr>Message = sample_message MsgApplyLogsResp 2, stored = True\<rparr>],
      spawned := [go_applyLogs (sample_apply_req 1), go_applyLogs (sample_apply_req 2)]\<rparr>"

text \<open>
  The same run when the request for 1 is repeated instead: the channel after the
  repeated request was handled and its \<^verbatim>\<open>applyLogs\<close> succeeded, and that channel after
  \<^verbatim>\<open>handleLocalStoreMsgs\<close>.
\<close>

definition sample_after_retry ::
  "(sample_replica, u64 list, Message list, nat \<times> u64, nat \<times> Log list) channel" where
  "sample_after_retry = sample_channel
     \<lparr>localstorage := (0, 1),
      applyLogStoreQueue := [\<lparr>Message = sample_message MsgApplyLogsResp 1, stored = True\<rparr>,
                             \<lparr>Message = sample_message MsgApplyLogsResp 1, stored = False\<rparr>],
      spawned := [go_applyLogs (sample_apply_req 1), go_applyLogs (sample_apply_req 1)]\<rparr>"

definition sample_after_retry_drained ::
  "(sample_replica, u64 list, Message list, nat \<times> u64, nat \<times> Log list) channel" where
  "sample_after_retry_drained = sample_after_retry
     \<lparr>rc := \<lparr>sr_lastLogIndex = 7, sr_term = 3,
              sr_stepped = [sample_message MsgApplyLogsResp 1]\<rparr>,
      applyLogStoreQueue := [\<lparr>Message = sample_message MsgApplyLogsResp 1, stored = False\<rparr>]\<rparr>"



section \<open>Properties\<close>

subsection \<open>Empty proposals and destroyed channels\<close>

text \<open>
  C9: for every \<open>ctx\<close> and \<open>timeout\<close>, \<^verbatim>\<open>proposeAndWaitCommits\<close> called with an empty
  data slice returns the error \<^verbatim>\<open>data is empty\<close> at once (it has returned whatever
  the wait would observe) and leaves the channel exactly as it found it: the replica,
  the commit wait and every other field are unchanged, so no log entry is built, no
  waiter is registered and no message is stepped.
\<close>

theorem proposeAndWaitCommits_empty_data:
  "proposeAndWaitCommits ops c ctx [] timeout obs =
     (Some (Inl (errors_New ''data is empty'')), c)"
  by (simp add: proposeAndWaitCommits_def)

text \<open>
  C3, as the code has it: once the destroy flag of a channel is set, \<^verbatim>\<open>step\<close>,
  \<^verbatim>\<open>propose\<close>, \<^verbatim>\<open>proposeAndWaitCommits\<close>, \<^verbatim>\<open>handleMessage\<close>,
  \<^verbatim>\<open>handleReceivedMessages\<close> and \<^verbatim>\<open>handleLocalStoreMsgs\<close> each return an error and
  leave the channel, its replica included, exactly as it was; \<^verbatim>\<open>ready()\<close> returns the
  empty batch and \<^verbatim>\<open>hasReady()\<close> returns false. This is all the destroy flag guards:
  \<^verbatim>\<open>updateClusterConfig\<close> and \<^verbatim>\<open>becomeLeader\<close>, which return no error, still hand their
  call to the replica of a destroyed channel.
\<close>

theorem destroyed_channel_refuses:
  assumes "destroy c"
  shows "step ops c msg = (Some (errors_New ''channel destroy, can not step''), c)
    \<and> propose ops c d = (Some (errors_New ''channel destroy, can not propose''), c)
    \<and> proposeAndWaitCommits ops c ctx data timeout obs =
        (Some (Inl (errors_New (if data = [] then ''data is empty''
                                else ''channel destroy, can not propose''))), c)
    \<and> handleMessage ops c msg =
        Inr (Some (errors_New ''channel destroy, can not handleMessage''), c)
    \<and> handleReceivedMessages ops c =
        (Some (errors_New ''channel destroy, can not handle message''), c)
    \<and> handleLocalStoreMsgs ops c =
        Inr (Some (errors_New ''channel destroy, can not handle message''), c)
    \<and> ready ops c = (\<lparr>Messages = []\<rparr>, c)
    \<and> hasReady ops c = False
    \<and> rc (becomeLeader ops c tm) = rc_BecomeLeader ops (rc c) tm
    \<and> rc (updateClusterConfig ops c cfg) =
        (if LeaderId cfg = NodeID c
         then rc_BecomeLeader ops (rc_SetReplicas ops (rc c) (Replicas cfg)) (CfgTerm cfg)
         else rc_BecomeFollower ops (rc_SetReplicas ops (rc c) (Replicas cfg)) (CfgTerm cfg)
                (LeaderId cfg))"
  using assms
  by (simp add: step_def propose_def proposeAndWaitCommits_def handleMessage_def
      handleReceivedMessages_def handleLocalStoreMsgs_def ready_def hasReady_def Ready_zero_def
      becomeLeader_def updateClusterConfig_def Let_def)

theorem destroyed_channel_refuses_witness:
  "destroy (sample_channel\<lparr>destroy := True, doneC := Closed\<rparr>)
   \<and> step sample_ops (sample_channel\<lparr>destroy := True, doneC := Closed\<rparr>)
         (sample_message MsgPropose 8)
       = (Some (errors_New ''channel destroy, can not step''),
          sample_channel\<lparr>destroy := True, doneC := Closed\<rparr>)
   \<and> proposeAndWaitCommits sample_ops (sample_channel\<lparr>destroy := True, doneC := Closed\<rparr>)
         () [[1, 2]] 5 []
       = (Some (Inl (errors_New ''channel destroy, can not propose'')),
          sample_channel\<lparr>destroy := True, doneC := Closed\<rparr>)
   \<and> handleLocalStoreMsgs sample_ops (sample_channel\<lparr>destroy := True, doneC := Closed\<rparr>)
       = Inr (Some (errors_New ''channel destroy, can not handle message''),
          sample_channel\<lparr>destroy := True, doneC := Closed\<rparr>)
   \<and> hasReady sample_ops (sample_channel\<lparr>destroy := True, doneC := Closed\<rparr>) = False
   \<and> rc (becomeLeader sample_ops (sample_channel\<lparr>destroy := True, doneC := Closed\<rparr>) 9)
       = \<lparr>sr_lastLogIndex = 7, sr_term = 9, sr_stepped = []\<rparr>"
proof -
  have d: "destroy (sample_channel\<lparr>destroy := True, doneC := Closed\<rparr>)"
    by simp
  from destroyed_channel_refuses [OF d, where ops = sample_ops
      and msg = "sample_message MsgPropose 8" and d = "[]" and ctx = "()"
      and data = "[[1, 2]]" and timeout = 5 and obs = "[]" and tm = 9
      and cfg = sample_config]
  show ?thesis using d by (simp add: sample_ops_def sample_channel_def)
qed

text \<open>
  The claim C3 as stated (once destroyed, every public operation on the channel fails
  with an error and the replica is not touched) is false: on a destroyed channel
  \<^verbatim>\<open>becomeLeader(9)\<close> and \<^verbatim>\<open>updateClusterConfig\<close> with a configuration of term 9 return
  normally and have changed the replica, whose term was 3.
\<close>

theorem destroyed_channel_unguarded_counterexample:
  "destroy (sample_channel\<lparr>destroy := True, doneC := Closed\<rparr>)
   \<and> rc (becomeLeader sample_ops (sample_channel\<lparr>destroy := True, doneC := Closed\<rparr>) 9)
       \<noteq> rc (sample_channel\<lparr>destroy := True, doneC := Closed\<rparr>)
   \<and> rc (updateClusterConfig sample_ops (sample_channel\<lparr>destroy := True, doneC := Closed\<rparr>)
             sample_config)
       \<noteq> rc (sample_channel\<lparr>destroy := True, doneC := Closed\<rparr>)"
  by (simp add: becomeLeader_def updateClusterConfig_def sample_ops_def sample_channel_def
      sample_config_def Let_def)

subsection \<open>Requests to apply logs\<close>

text \<open>
  C10: \<^verbatim>\<open>handleApplyLogsReq\<close> does nothing at all when the message has
  \<^verbatim>\<open>CommittedIndex <= 0\<close> or \<^verbatim>\<open>AppliedIndex >= CommittedIndex\<close>: the channel it
  leaves is the channel it found, so nothing is enqueued, the commit wait is not
  signalled and no applied index is written. Otherwise it appends exactly one entry to
  the apply queue, not yet stored and carrying the response message the replica makes
  for \<^verbatim>\<open>CommittedIndex\<close>, and starts one \<^verbatim>\<open>applyLogs\<close> goroutine for the message;
  nothing else changes.
\<close>

theorem handleApplyLogsReq_cases:
  "(CommittedIndex msg \<le> 0 \<or> CommittedIndex msg \<le> AppliedIndex msg
      \<longrightarrow> handleApplyLogsReq ops c msg = c)
   \<and> (0 < CommittedIndex msg \<and> AppliedIndex msg < CommittedIndex msg
      \<longrightarrow> handleApplyLogsReq ops c msg =
            c\<lparr>applyLogStoreQueue := applyLogStoreQueue c @
                  [\<lparr>Message = rc_NewMsgApplyLogsRespMessage ops (rc c) (CommittedIndex msg),
                    stored = False\<rparr>],
              spawned := spawned c @ [go_applyLogs msg]\<rparr>)"
  by (auto simp: handleApplyLogsReq_def add_def)

theorem handleApplyLogsReq_cases_witness:
  "handleApplyLogsReq sample_ops sample_channel
       ((sample_message MsgApplyLogsReq 0)\<lparr>CommittedIndex := 0, AppliedIndex := 0\<rparr>) = sample_channel
   \<and> handleApplyLogsReq sample_ops sample_channel
       ((sample_message MsgApplyLogsReq 0)\<lparr>CommittedIndex := 5, AppliedIndex := 5\<rparr>) = sample_channel
   \<and> handleApplyLogsReq sample_ops sample_channel
       ((sample_message MsgApplyLogsReq 0)\<lparr>CommittedIndex := 5, AppliedIndex := 2\<rparr>) =
       sample_channel\<lparr>applyLogStoreQueue :=
            [\<lparr>Message = sample_message MsgApplyLogsResp 5, stored = False\<rparr>],
          spawned := [go_applyLogs
            ((sample_message MsgApplyLogsReq 0)\<lparr>CommittedIndex := 5, AppliedIndex := 2\<rparr>)]\<rparr>"
  using handleApplyLogsReq_cases [of "(sample_message MsgApplyLogsReq 0)\<lparr>CommittedIndex := 0, AppliedIndex := 0\<rparr>" sample_ops sample_channel]
    handleApplyLogsReq_cases [of "(sample_message MsgApplyLogsReq 0)\<lparr>CommittedIndex := 5, AppliedIndex := 5\<rparr>" sample_ops sample_channel]
    handleApplyLogsReq_cases [of "(sample_message MsgApplyLogsReq 0)\<lparr>CommittedIndex := 5, AppliedIndex := 2\<rparr>" sample_ops sample_channel]
  by (simp add: sample_ops_def sample_channel_def)

subsection \<open>A failed append is fatal\<close>

text \<open>
  C5: when \<^verbatim>\<open>MessageLogStorage.AppendLog\<close> returns an error in the goroutine
  \<^verbatim>\<open>appendLogs\<close>, the goroutine ends in a panic, whatever the queue holds: it reaches
  \<^verbatim>\<open>c.Panic("append log error")\<close> and never the call of \<^verbatim>\<open>setStored\<close>, so no channel
  with the entry marked stored results. (\<^verbatim>\<open>handleStoreAppend\<close> starts the goroutine
  only for a message with logs.)
\<close>

theorem appendLogs_storage_failure_is_fatal:
  assumes "st_AppendLog ops (MessageLogStorage c)
             (ChannelKey ops (channelID c) (channelType c)) (Logs msg) = (Some err, st')"
  shows "(\<exists>p. appendLogs ops c msg = Inl p)
    \<and> (Logs msg \<noteq> [] \<longrightarrow> appendLogs ops c msg = Inl (Panic ''append log error''))"
  using assms by (auto simp: appendLogs_def Let_def split: list.splits)

theorem appendLogs_storage_failure_is_fatal_witness:
  "st_AppendLog sample_ops (MessageLogStorage (sample_channel\<lparr>MessageLogStorage := (1, [])\<rparr>))
      (ChannelKey sample_ops (channelID (sample_channel\<lparr>MessageLogStorage := (1, [])\<rparr>))
         (channelType (sample_channel\<lparr>MessageLogStorage := (1, [])\<rparr>)))
      (Logs ((sample_message MsgStoreAppend 0)\<lparr>Logs := [\<lparr>Index = 8, Term = 3, Data = [1]\<rparr>]\<rparr>))
     = (Some (errors_New ''write failed''), (0, []))
   \<and> appendLogs sample_ops
        (handleStoreAppend sample_ops (sample_channel\<lparr>MessageLogStorage := (1, [])\<rparr>)
           ((sample_message MsgStoreAppend 0)\<lparr>Logs := [\<lparr>Index = 8, Term = 3, Data = [1]\<rparr>]\<rparr>))
        ((sample_message MsgStoreAppend 0)\<lparr>Logs := [\<lparr>Index = 8, Term = 3, Data = [1]\<rparr>]\<rparr>)
     = Inl (Panic ''append log error'')"
proof -
  let ?m = "(sample_message MsgStoreAppend 0)\<lparr>Logs := [\<lparr>Index = 8, Term = 3, Data = [1]\<rparr>]\<rparr>"
  let ?c = "handleStoreAppend sample_ops (sample_channel\<lparr>MessageLogStorage := (1, [])\<rparr>) ?m"
  have f: "st_AppendLog sample_ops (MessageLogStorage ?c)
      (ChannelKey sample_ops (channelID ?c) (channelType ?c)) (Logs ?m)
     = (Some (errors_New ''write failed''), (0, []))"
    by (simp add: sample_ops_def handleStoreAppend_def sample_channel_def)
  from appendLogs_storage_failure_is_fatal [OF f] f
  show ?thesis by (simp add: sample_ops_def sample_channel_def)
qed

subsection \<open>Destroying twice\<close>

lemma makeDestroy_open:
  "doneC c = Open \<Longrightarrow> makeDestroy c = Inr (c\<lparr>destroy := True, doneC := Closed\<rparr>)"
  by (simp add: makeDestroy_def close_def Let_def)

lemma makeDestroy_closed:
  "doneC c = Closed \<Longrightarrow> makeDestroy c = Inl CloseOfClosedChannel"
  by (simp add: makeDestroy_def close_def Let_def)

lemma makeDestroy_times_closed:
  "doneC c = Closed \<Longrightarrow> makeDestroy_times (Suc n) c = Inl CloseOfClosedChannel"
  by (simp add: makeDestroy_closed)

text \<open>
  C4, as the code has it: \<^verbatim>\<open>makeDestroy()\<close> is not idempotent. The first call on a
  channel whose done channel is open sets the destroy flag and closes the done channel,
  changing nothing else; every later call panics, since \<^verbatim>\<open>close\<close> of a closed channel
  panics in Go. Hence \<open>n + 1\<close> calls in a row succeed only for \<open>n = 0\<close>.
\<close>

theorem makeDestroy_once_only:
  assumes "doneC c = Open"
  shows "makeDestroy_times (Suc n) c =
           (if n = 0 then Inr (c\<lparr>destroy := True, doneC := Closed\<rparr>)
            else Inl CloseOfClosedChannel)"
proof (cases n)
  case 0
  then show ?thesis using assms by (simp add: makeDestroy_open)
next
  case (Suc k)
  have "makeDestroy_times (Suc (Suc k)) c =
          makeDestroy_times (Suc k) (c\<lparr>destroy := True, doneC := Closed\<rparr>)"
    using assms by (simp add: makeDestroy_open)
  also have "\<dots> = Inl CloseOfClosedChannel"
    by (rule makeDestroy_times_closed) simp
  finally show ?thesis using Suc by simp
qed

theorem makeDestroy_once_only_witness:
  "doneC sample_channel = Open
   \<and> makeDestroy_times (Suc 0) sample_channel = Inr (sample_channel\<lparr>destroy := True, doneC := Closed\<rparr>)
   \<and> makeDestroy_times (Suc 2) sample_channel = Inl CloseOfClosedChannel"
proof -
  have h: "doneC sample_channel = Open" by (simp add: sample_channel_def)
  from makeDestroy_once_only [OF h, of 0] makeDestroy_once_only [OF h, of 2] h
  show ?thesis by simp
qed

text \<open>
  The claim C4 as stated (calling it twice has the effect of calling it once, and does
  not fail) is false: on a fresh channel one call returns the destroyed channel and two
  calls panic.
\<close>

theorem makeDestroy_twice_counterexample:
  "makeDestroy_times 1 sample_channel = Inr (sample_channel\<lparr>destroy := True, doneC := Closed\<rparr>)
   \<and> makeDestroy_times 2 sample_channel = Inl CloseOfClosedChannel
   \<and> makeDestroy_times 2 sample_channel \<noteq> makeDestroy_times 1 sample_channel"
  by (simp add: numeral_2_eq_2 makeDestroy_def close_def sample_channel_def)

subsection \<open>The indices of a proposal\<close>

lemma build_logs_eq:
  "build_logs ops r i ds logs =
     logs @ map (\<lambda>k. \<lparr>Index = rc_LastLogIndex ops r + of_nat (Suc (i + k)),
                       Term = rc_Term ops r, Data = ds ! k\<rparr>) [0..<length ds]"
proof (induction ds arbitrary: i logs)
  case Nil
  then show ?case by simp
next
  case (Cons d ds)
  show ?case
    by (simp add: Cons.IH map_upt_Suc del: upt_Suc)
qed

lemma build_logs_0:
  "build_logs ops r 0 data [] =
     map (\<lambda>k. \<lparr>Index = rc_LastLogIndex ops r + of_nat (Suc k),
                 Term = rc_Term ops r, Data = data ! k\<rparr>) [0..<length data]"
  by (simp add: build_logs_eq)

lemma Index_build_logs:
  "map Index (build_logs ops r 0 data []) =
     map (\<lambda>k. rc_LastLogIndex ops r + of_nat (Suc k)) [0..<length data]"
  by (simp add: build_logs_0 comp_def)

lemma distinct_indices:
  fixes L :: u64
  assumes "n < 2 ^ 64"
  shows "distinct (map (\<lambda>k. L + of_nat (Suc k)) [0..<n])"
proof -
  have "inj_on (\<lambda>k. L + (of_nat (Suc k) :: u64)) {0..<n}"
  proof (rule inj_onI)
    fix x y assume x: "x \<in> {0..<n}" and y: "y \<in> {0..<n}"
      and e: "L + (of_nat (Suc x) :: u64) = L + of_nat (Suc y)"
    from e have "(of_nat (Suc x) :: u64) = of_nat (Suc y)"
      by (simp del: of_nat_Suc)
    then have "take_bit 64 (Suc x) = take_bit 64 (Suc y)"
      using word_of_nat_eq_iff [where ?'a = 64, of "Suc x" "Suc y"] by simp
    moreover have "Suc x < 2 ^ 64" "Suc y < 2 ^ 64" using x y assms by auto
    ultimately show "x = y" by (simp add: take_bit_nat_eq_self)
  qed
  then show ?thesis by (simp add: distinct_map)
qed


lemma unat_indices:
  fixes L :: u64
  assumes "unat L + n < 2 ^ 64"
  shows "map (\<lambda>k. unat (L + of_nat (Suc k))) [0..<n] = [unat L + 1..<unat L + 1 + n]"
proof (rule nth_equalityI)
  show "length (map (\<lambda>k. unat (L + of_nat (Suc k))) [0..<n]) = length [unat L + 1..<unat L + 1 + n]"
    by simp
next
  fix i assume "i < length (map (\<lambda>k. unat (L + of_nat (Suc k))) [0..<n])"
  then have i: "i < n" by simp
  have s: "unat (of_nat (Suc i) :: u64) = Suc i"
    using i assms by (simp add: unat_of_nat del: of_nat_Suc)
  have "unat (L + of_nat (Suc i)) = unat L + unat (of_nat (Suc i) :: u64)"
    using i assms s by (subst unat_add_lem [THEN iffD1]) simp_all
  then show "map (\<lambda>k. unat (L + of_nat (Suc k))) [0..<n] ! i = [unat L + 1..<unat L + 1 + n] ! i"
    using i s by (simp del: of_nat_Suc upt_Suc)
qed

lemma proposeAndWaitCommits_proposed:
  assumes "\<not> destroy c" and "data \<noteq> []"
    and "cw_addWaitIndex ops (commitWait c)
           (Index (last (build_logs ops (rc c) 0 data []))) = (None, cw')"
    and "rc_Step ops (rc c)
           (rc_NewProposeMessageWithLogs ops (rc c) (build_logs ops (rc c) 0 data [])) = (None, r')"
  shows "proposeAndWaitCommits ops c ctx data timeout obs =
     ((case wait_select timeout obs of
         None \<Rightarrow> None
       | Some case_waitC \<Rightarrow> Some (Inr (map Index (build_logs ops (rc c) 0 data [])))
       | Some case_timeoutCtx_Done \<Rightarrow> Some (Inl DeadlineExceeded)
       | Some case_doneC \<Rightarrow> Some (Inl ErrStopped)),
      c\<lparr>commitWait := cw', lastActivity := time_Now ops, rc := r'\<rparr>)"
  using assms
  by (simp add: proposeAndWaitCommits_def step_def Let_def
      split: option.splits select_case.splits)

lemma proposeAndWaitCommits_success:
  assumes "proposeAndWaitCommits ops c ctx data timeout obs = (Some (Inr seqs), c')"
  shows "seqs = map Index (build_logs ops (rc c) 0 data [])
    \<and> rc c' = snd (rc_Step ops (rc c)
         (rc_NewProposeMessageWithLogs ops (rc c) (build_logs ops (rc c) 0 data [])))"
  using assms
  by (auto simp: proposeAndWaitCommits_def step_def Let_def
      split: if_splits option.splits select_case.splits prod.splits)

text \<open>
  C1: on a channel that is not destroyed, with data that is not empty, a replica whose
  last log index is \<open>L\<close> and whose term is \<open>T\<close>: the logs that
  \<^verbatim>\<open>proposeAndWaitCommits\<close> builds are exactly \<open>length data\<close> entries, the \<open>i\<close>-th with
  index \<open>L + (i + 1)\<close> (in 64-bit arithmetic), term \<open>T\<close> and the \<open>i\<close>-th datum; these
  are the logs of the message it steps; whenever the call returns indices, they are
  \<open>L + 1, \<dots>, L + length data\<close> in this order, and it does return them when the waiter
  is registered, the step succeeds and the wait ends with the signal. The indices are
  pairwise distinct (a Go slice has fewer than \<open>2 ^ 64\<close> elements), and as long as
  \<open>L + length data\<close> does not overflow 64 bits they are, read as numbers, the interval
  from \<open>L + 1\<close> to \<open>L + length data\<close>.
\<close>

theorem proposeAndWaitCommits_contiguous_indices:
  assumes "\<not> destroy c" and "data \<noteq> []"
  shows "build_logs ops (rc c) 0 data [] =
           map (\<lambda>i. \<lparr>Index = rc_LastLogIndex ops (rc c) + of_nat (Suc i),
                       Term = rc_Term ops (rc c), Data = data ! i\<rparr>) [0..<length data]
    \<and> (\<forall>seqs c'. proposeAndWaitCommits ops c ctx data timeout obs = (Some (Inr seqs), c') \<longrightarrow>
          seqs = map (\<lambda>i. rc_LastLogIndex ops (rc c) + of_nat (Suc i)) [0..<length data]
        \<and> rc c' = snd (rc_Step ops (rc c)
            (rc_NewProposeMessageWithLogs ops (rc c) (build_logs ops (rc c) 0 data []))))
    \<and> (\<forall>cw' r'.
          cw_addWaitIndex ops (commitWait c)
            (Index (last (build_logs ops (rc c) 0 data []))) = (None, cw')
        \<and> rc_Step ops (rc c)
            (rc_NewProposeMessageWithLogs ops (rc c) (build_logs ops (rc c) 0 data [])) = (None, r')
        \<and> wait_select timeout obs = Some case_waitC \<longrightarrow>
          fst (proposeAndWaitCommits ops c ctx data timeout obs) =
            Some (Inr (map (\<lambda>i. rc_LastLogIndex ops (rc c) + of_nat (Suc i)) [0..<length data])))
    \<and> (length data < 2 ^ 64 \<longrightarrow>
          distinct (map (\<lambda>i. rc_LastLogIndex ops (rc c) + of_nat (Suc i)) [0..<length data]))
    \<and> (unat (rc_LastLogIndex ops (rc c)) + length data < 2 ^ 64 \<longrightarrow>
          map (\<lambda>i. unat (rc_LastLogIndex ops (rc c) + of_nat (Suc i))) [0..<length data] =
            [unat (rc_LastLogIndex ops (rc c)) + 1..<
             unat (rc_LastLogIndex ops (rc c)) + 1 + length data])"
proof (intro conjI allI impI)
  show "build_logs ops (rc c) 0 data [] =
          map (\<lambda>i. \<lparr>Index = rc_LastLogIndex ops (rc c) + of_nat (Suc i),
                      Term = rc_Term ops (rc c), Data = data ! i\<rparr>) [0..<length data]"
    by (rule build_logs_0)
next
  fix seqs c'
  assume r: "proposeAndWaitCommits ops c ctx data timeout obs = (Some (Inr seqs), c')"
  from proposeAndWaitCommits_success [OF r]
  show "seqs = map (\<lambda>i. rc_LastLogIndex ops (rc c) + of_nat (Suc i)) [0..<length data]"
    by (simp only: Index_build_logs)
  from proposeAndWaitCommits_success [OF r]
  show "rc c' = snd (rc_Step ops (rc c)
          (rc_NewProposeMessageWithLogs ops (rc c) (build_logs ops (rc c) 0 data [])))"
    by (rule conjunct2)
next
  fix cw' r'
  assume a: "cw_addWaitIndex ops (commitWait c)
            (Index (last (build_logs ops (rc c) 0 data []))) = (None, cw')
        \<and> rc_Step ops (rc c)
            (rc_NewProposeMessageWithLogs ops (rc c) (build_logs ops (rc c) 0 data [])) = (None, r')
        \<and> wait_select timeout obs = Some case_waitC"
  then have "fst (proposeAndWaitCommits ops c ctx data timeout obs) =
      Some (Inr (map Index (build_logs ops (rc c) 0 data [])))"
    using assms by (simp add: proposeAndWaitCommits_proposed [where cw' = cw' and r' = r'])
  then show "fst (proposeAndWaitCommits ops c ctx data timeout obs) =
      Some (Inr (map (\<lambda>i. rc_LastLogIndex ops (rc c) + of_nat (Suc i)) [0..<length data]))"
    by (simp only: Index_build_logs)
next
  assume "length data < 2 ^ 64"
  then show "distinct (map (\<lambda>i. rc_LastLogIndex ops (rc c) + of_nat (Suc i)) [0..<length data])"
    by (rule distinct_indices)
next
  assume "unat (rc_LastLogIndex ops (rc c)) + length data < 2 ^ 64"
  then show "map (\<lambda>i. unat (rc_LastLogIndex ops (rc c) + of_nat (Suc i))) [0..<length data] =
            [unat (rc_LastLogIndex ops (rc c)) + 1..<
             unat (rc_LastLogIndex ops (rc c)) + 1 + length data]"
    by (rule unat_indices)
qed

lemma sample_logs:
  "build_logs sample_ops (rc sample_channel) 0 [[1], [2], [3]] [] =
     [\<lparr>Index = 8, Term = 3, Data = [1]\<rparr>, \<lparr>Index = 9, Term = 3, Data = [2]\<rparr>,
      \<lparr>Index = 10, Term = 3, Data = [3]\<rparr>]"
  by (simp add: sample_ops_def sample_channel_def)

theorem proposeAndWaitCommits_contiguous_indices_witness:
  "\<not> destroy sample_channel \<and> [[1], [2], [3 :: u8]] \<noteq> []
   \<and> fst (proposeAndWaitCommits sample_ops sample_channel () [[1], [2], [3]] 10
        [\<lparr>waitC_ready = True, elapsed = 1, doneC_closed = False, ctx_Done = False, pick = 0\<rparr>])
       = Some (Inr [8, 9, 10])"
proof -
  have d: "\<not> destroy sample_channel" by (simp add: sample_channel_def)
  have n: "[[1], [2], [3 :: u8]] \<noteq> []" by simp
  have L: "rc_LastLogIndex sample_ops (rc sample_channel) = 7"
    by (simp add: sample_ops_def sample_channel_def)
  have w: "wait_select 10
        [\<lparr>waitC_ready = True, elapsed = 1, doneC_closed = False, ctx_Done = False, pick = 0\<rparr>]
        = Some case_waitC"
    by (simp add: select_ready_def select_cases_def)
  have a: "cw_addWaitIndex sample_ops (commitWait sample_channel)
            (Index (last (build_logs sample_ops (rc sample_channel) 0 [[1], [2], [3]] []))) = (None, [10])"
    by (simp add: sample_logs) (simp add: sample_ops_def sample_channel_def)
  have s: "rc_Step sample_ops (rc sample_channel)
            (rc_NewProposeMessageWithLogs sample_ops (rc sample_channel)
               (build_logs sample_ops (rc sample_channel) 0 [[1], [2], [3]] [])) =
           (None, (rc sample_channel)\<lparr>sr_stepped := sr_stepped (rc sample_channel) @
              [rc_NewProposeMessageWithLogs sample_ops (rc sample_channel)
               (build_logs sample_ops (rc sample_channel) 0 [[1], [2], [3]] [])]\<rparr>)"
    by (simp add: sample_ops_def)
  have u: "map (\<lambda>i. (7 :: u64) + of_nat (Suc i)) [0..<3] = [8, 9, 10]"
    by (simp add: upt_rec)
  from proposeAndWaitCommits_contiguous_indices [OF d n, where ops = sample_ops and ctx = "()"
      and timeout = 10
      and obs = "[\<lparr>waitC_ready = True, elapsed = 1, doneC_closed = False, ctx_Done = False, pick = 0\<rparr>]"]
  have "fst (proposeAndWaitCommits sample_ops sample_channel () [[1], [2], [3]] 10
        [\<lparr>waitC_ready = True, elapsed = 1, doneC_closed = False, ctx_Done = False, pick = 0\<rparr>])
       = Some (Inr (map (\<lambda>i. rc_LastLogIndex sample_ops (rc sample_channel) + of_nat (Suc i))
            [0..<length [[1], [2], [3 :: u8]]]))"
    using a s w by blast
  then show ?thesis using d n L u by simp
qed

subsection \<open>What ends the wait of a proposal\<close>

lemma select_ready_mem:
  "select_ready n cs = Some k \<Longrightarrow> (True, k) \<in> set cs"
proof -
  assume a: "select_ready n cs = Some k"
  define rs where "rs = map snd (filter fst cs)"
  from a have ne: "rs \<noteq> []" and k: "k = rs ! (n mod length rs)"
    by (auto simp: select_ready_def rs_def split: list.splits)
  from ne have "n mod length rs < length rs" by simp
  then have "k \<in> set rs" using k by simp
  then show ?thesis by (auto simp: rs_def)
qed

lemma select_ready_None_iff:
  "select_ready n cs = None \<longleftrightarrow> filter fst cs = []"
  by (auto simp: select_ready_def split: list.splits)

lemma select_cases_blocked:
  "select_ready n (select_cases timeout ob) = None \<longleftrightarrow> \<not> can_proceed timeout ob"
  by (simp add: select_ready_None_iff select_cases_def can_proceed_def)

lemma select_cases_sound:
  assumes "select_ready n (select_cases timeout ob) = Some k"
  shows "(k = case_waitC \<and> waitC_ready ob)
       \<or> (k = case_timeoutCtx_Done \<and> timeout \<le> elapsed ob)
       \<or> (k = case_doneC \<and> doneC_closed ob)"
  using select_ready_mem [OF assms] by (auto simp: select_cases_def)

lemma wait_select_find:
  "wait_select timeout obs =
     (case find (can_proceed timeout) obs of
        None \<Rightarrow> None
      | Some ob \<Rightarrow> select_ready (pick ob) (select_cases timeout ob))"
proof (induction obs)
  case Nil
  then show ?case by simp
next
  case (Cons ob obs)
  show ?case
  proof (cases "can_proceed timeout ob")
    case True
    then obtain k where "select_ready (pick ob) (select_cases timeout ob) = Some k"
      using select_cases_blocked [of "pick ob" timeout ob] by auto
    with True show ?thesis by simp
  next
    case False
    then have "select_ready (pick ob) (select_cases timeout ob) = None"
      by (simp add: select_cases_blocked)
    with False Cons.IH show ?thesis by simp
  qed
qed

lemma wait_select_ctx:
  "wait_select timeout (map (\<lambda>ob. ob\<lparr>ctx_Done := g ob\<rparr>) obs) = wait_select timeout obs"
  by (induction obs) (simp_all add: select_cases_def split: option.splits)

lemma proposeAndWaitCommits_ctx:
  "proposeAndWaitCommits ops c ctx' data timeout (map (\<lambda>ob. ob\<lparr>ctx_Done := g ob\<rparr>) obs) =
   proposeAndWaitCommits ops c ctx data timeout obs"
  unfolding proposeAndWaitCommits_def wait_select_ctx by (rule refl)

text \<open>
  C2: after the waiter is registered and the propose message is stepped without error,
  \<^verbatim>\<open>proposeAndWaitCommits\<close> stays blocked as long as none of the three events has
  happened (no signal on the wait channel, timeout not expired, done channel not
  closed), whether or not the caller's \<^verbatim>\<open>ctx\<close> has been cancelled meanwhile. At the
  first observation at which one of them has happened it returns: the indices with a
  nil error, and then the wait channel was signalled; or the deadline error of the
  timeout context, and then the timeout had expired; or \<^verbatim>\<open>ErrStopped\<close>, and then the
  done channel was closed. Neither the \<^verbatim>\<open>ctx\<close> argument nor its cancellation changes
  the result.
\<close>

theorem proposeAndWaitCommits_wait:
  assumes "\<not> destroy c" and "data \<noteq> []"
    and "cw_addWaitIndex ops (commitWait c)
           (Index (last (build_logs ops (rc c) 0 data []))) = (None, cw')"
    and "rc_Step ops (rc c)
           (rc_NewProposeMessageWithLogs ops (rc c) (build_logs ops (rc c) 0 data [])) = (None, r')"
  shows "(find (can_proceed timeout) obs = None \<longrightarrow>
            fst (proposeAndWaitCommits ops c ctx data timeout obs) = None)
    \<and> (\<forall>ob. find (can_proceed timeout) obs = Some ob \<longrightarrow>
            (fst (proposeAndWaitCommits ops c ctx data timeout obs) =
               Some (Inr (map Index (build_logs ops (rc c) 0 data []))) \<and> waitC_ready ob)
          \<or> (fst (proposeAndWaitCommits ops c ctx data timeout obs) =
               Some (Inl DeadlineExceeded) \<and> timeout \<le> elapsed ob)
          \<or> (fst (proposeAndWaitCommits ops c ctx data timeout obs) =
               Some (Inl ErrStopped) \<and> doneC_closed ob))
    \<and> ((\<forall>ob \<in> set obs. \<not> waitC_ready ob \<and> elapsed ob < timeout \<and> \<not> doneC_closed ob) \<longrightarrow>
            fst (proposeAndWaitCommits ops c ctx data timeout obs) = None)
    \<and> proposeAndWaitCommits ops c ctx' data timeout (map (\<lambda>ob. ob\<lparr>ctx_Done := g ob\<rparr>) obs) =
        proposeAndWaitCommits ops c ctx data timeout obs"
proof -
  let ?P = "proposeAndWaitCommits ops c ctx data timeout obs"
  let ?logs = "build_logs ops (rc c) 0 data []"
  have P: "fst ?P =
     (case wait_select timeout obs of
        None \<Rightarrow> None
      | Some case_waitC \<Rightarrow> Some (Inr (map Index ?logs))
      | Some case_timeoutCtx_Done \<Rightarrow> Some (Inl DeadlineExceeded)
      | Some case_doneC \<Rightarrow> Some (Inl ErrStopped))"
    by (simp add: proposeAndWaitCommits_proposed [OF assms])
  have blocked: "fst ?P = None" if "find (can_proceed timeout) obs = None"
    using that by (simp add: P wait_select_find)
  have returned: "(fst ?P = Some (Inr (map Index ?logs)) \<and> waitC_ready ob)
          \<or> (fst ?P = Some (Inl DeadlineExceeded) \<and> timeout \<le> elapsed ob)
          \<or> (fst ?P = Some (Inl ErrStopped) \<and> doneC_closed ob)"
    if f: "find (can_proceed timeout) obs = Some ob" for ob
  proof -
    from f have "can_proceed timeout ob" by (auto simp: find_Some_iff)
    then obtain k where k: "select_ready (pick ob) (select_cases timeout ob) = Some k"
      using select_cases_blocked [of "pick ob" timeout ob] by auto
    then have w: "wait_select timeout obs = Some k"
      using f by (simp add: wait_select_find)
    from select_cases_sound [OF k] show ?thesis
      by (auto simp: P w)
  qed
  have quiet: "fst ?P = None"
    if q: "\<forall>ob \<in> set obs. \<not> waitC_ready ob \<and> elapsed ob < timeout \<and> \<not> doneC_closed ob"
  proof -
    from q have "find (can_proceed timeout) obs = None"
      by (auto simp: find_None_iff can_proceed_def)
    then show ?thesis by (rule blocked)
  qed
  show ?thesis
    using blocked returned quiet proposeAndWaitCommits_ctx [of ops c ctx' data timeout g obs ctx]
    by blast
qed

theorem proposeAndWaitCommits_wait_witness:
  "\<not> destroy sample_channel \<and> [[1 :: u8]] \<noteq> []
   \<and> fst (proposeAndWaitCommits sample_ops sample_channel () [[1]] 10
        [\<lparr>waitC_ready = False, elapsed = 1, doneC_closed = False, ctx_Done = True, pick = 0\<rparr>])
       = None
   \<and> fst (proposeAndWaitCommits sample_ops sample_channel () [[1]] 10
        [\<lparr>waitC_ready = False, elapsed = 1, doneC_closed = False, ctx_Done = True, pick = 0\<rparr>,
         \<lparr>waitC_ready = False, elapsed = 2, doneC_closed = True, ctx_Done = True, pick = 0\<rparr>])
       = Some (Inl ErrStopped)"
proof -
  have d: "\<not> destroy sample_channel" by (simp add: sample_channel_def)
  have n: "[[1 :: u8]] \<noteq> []" by simp
  have a: "cw_addWaitIndex sample_ops (commitWait sample_channel)
            (Index (last (build_logs sample_ops (rc sample_channel) 0 [[1]] []))) = (None, [8])"
    by (simp add: sample_ops_def sample_channel_def)
  have s: "rc_Step sample_ops (rc sample_channel)
            (rc_NewProposeMessageWithLogs sample_ops (rc sample_channel)
               (build_logs sample_ops (rc sample_channel) 0 [[1]] [])) =
           (None, (rc sample_channel)\<lparr>sr_stepped := sr_stepped (rc sample_channel) @
              [rc_NewProposeMessageWithLogs sample_ops (rc sample_channel)
               (build_logs sample_ops (rc sample_channel) 0 [[1]] [])]\<rparr>)"
    by (simp add: sample_ops_def)
  note W = proposeAndWaitCommits_wait [OF d n a s, where timeout = 10 and ctx = "()"
      and ctx' = "()" and g = "\<lambda>ob. False"]
  have 1: "fst (proposeAndWaitCommits sample_ops sample_channel () [[1]] 10
        [\<lparr>waitC_ready = False, elapsed = 1, doneC_closed = False, ctx_Done = True, pick = 0\<rparr>])
       = None"
    using W [where obs = "[\<lparr>waitC_ready = False, elapsed = 1, doneC_closed = False,
        ctx_Done = True, pick = 0\<rparr>]"]
    by (simp add: can_proceed_def)
  have 2: "fst (proposeAndWaitCommits sample_ops sample_channel () [[1]] 10
        [\<lparr>waitC_ready = False, elapsed = 1, doneC_closed = False, ctx_Done = True, pick = 0\<rparr>,
         \<lparr>waitC_ready = False, elapsed = 2, doneC_closed = True, ctx_Done = True, pick = 0\<rparr>])
       = Some (Inl ErrStopped)"
    using W [where obs = "[\<lparr>waitC_ready = False, elapsed = 1, doneC_closed = False,
        ctx_Done = True, pick = 0\<rparr>,
       \<lparr>waitC_ready = False, elapsed = 2, doneC_closed = True, ctx_Done = True, pick = 0\<rparr>]"]
    by (simp add: can_proceed_def)
  show ?thesis using d n 1 2 by simp
qed

subsection \<open>Draining the local store queues\<close>

lemma step_all_append:
  "step_all ops r (xs @ ys) =
     (case step_all ops r xs of None \<Rightarrow> None | Some r' \<Rightarrow> step_all ops r' ys)"
  by (induction xs arbitrary: r) (auto split: prod.splits option.splits)

lemma drain_appendLogStoreQueue_eq:
  assumes "\<not> destroy c" and "appendLogStoreQueue c = q"
  shows "drain_appendLogStoreQueue ops c =
     (case step_all ops (rc c) (map Message (takeWhile stored q)) of
        None \<Rightarrow> Inl (Panic ''step local store message failed'')
      | Some r' \<Rightarrow>
          Inr (c\<lparr>appendLogStoreQueue := dropWhile stored q, rc := r',
                 lastActivity := (if takeWhile stored q = [] then lastActivity c
                                  else time_Now ops)\<rparr>))"
  using assms
proof (induction q arbitrary: c)
  case Nil
  then show ?case
    by (subst drain_appendLogStoreQueue.simps) (simp add: firstIsStored_def)
next
  case (Cons m q)
  show ?case
  proof (cases "stored m")
    case False
    then show ?thesis using Cons.prems
      by (subst drain_appendLogStoreQueue.simps) (simp add: firstIsStored_def)
  next
    case True
    obtain err r' where st: "rc_Step ops (rc c) (Message m) = (err, r')"
      by (cases "rc_Step ops (rc c) (Message m)")
    show ?thesis
    proof (cases err)
      case (Some e)
      then show ?thesis using True Cons.prems st
        by (subst drain_appendLogStoreQueue.simps)
          (simp add: firstIsStored_def removeFirst_def stepLock_def step_def)
    next
      case None
      let ?c' = "c\<lparr>appendLogStoreQueue := q, lastActivity := time_Now ops, rc := r'\<rparr>"
      have d: "drain_appendLogStoreQueue ops c = drain_appendLogStoreQueue ops ?c'"
        using True Cons.prems st None
        by (subst drain_appendLogStoreQueue.simps)
          (simp add: firstIsStored_def removeFirst_def stepLock_def step_def)
      have "\<not> destroy ?c'" "appendLogStoreQueue ?c' = q"
        using Cons.prems by simp_all
      from Cons.IH [OF this] show ?thesis
        using True st None by (simp add: d split: option.splits)
    qed
  qed
qed

lemma drain_applyLogStoreQueue_eq:
  assumes "\<not> destroy c" and "applyLogStoreQueue c = q"
  shows "drain_applyLogStoreQueue ops c =
     (case step_all ops (rc c) (map Message (takeWhile stored q)) of
        None \<Rightarrow> Inl (Panic ''applyLogStoreQueue: step local store message failed'')
      | Some r' \<Rightarrow>
          Inr (c\<lparr>applyLogStoreQueue := dropWhile stored q, rc := r',
                 lastActivity := (if takeWhile stored q = [] then lastActivity c
                                  else time_Now ops)\<rparr>))"
  using assms
proof (induction q arbitrary: c)
  case Nil
  then show ?case
    by (subst drain_applyLogStoreQueue.simps) (simp add: firstIsStored_def)
next
  case (Cons m q)
  show ?case
  proof (cases "stored m")
    case False
    then show ?thesis using Cons.prems
      by (subst drain_applyLogStoreQueue.simps) (simp add: firstIsStored_def)
  next
    case True
    obtain err r' where st: "rc_Step ops (rc c) (Message m) = (err, r')"
      by (cases "rc_Step ops (rc c) (Message m)")
    show ?thesis
    proof (cases err)
      case (Some e)
      then show ?thesis using True Cons.prems st
        by (subst drain_applyLogStoreQueue.simps)
          (simp add: firstIsStored_def removeFirst_def stepLock_def step_def)
    next
      case None
      let ?c' = "c\<lparr>applyLogStoreQueue := q, lastActivity := time_Now ops, rc := r'\<rparr>"
      have d: "drain_applyLogStoreQueue ops c = drain_applyLogStoreQueue ops ?c'"
        using True Cons.prems st None
        by (subst drain_applyLogStoreQueue.simps)
          (simp add: firstIsStored_def removeFirst_def stepLock_def step_def)
      have "\<not> destroy ?c'" "applyLogStoreQueue ?c' = q"
        using Cons.prems by simp_all
      from Cons.IH [OF this] show ?thesis
        using True st None by (simp add: d split: option.splits)
    qed
  qed
qed


lemma handleLocalStoreMsgs_eq:
  assumes "\<not> destroy c"
  shows "handleLocalStoreMsgs ops c =
     (case step_all ops (rc c) (map Message (takeWhile stored (appendLogStoreQueue c))) of
        None \<Rightarrow> Inl (Panic ''step local store message failed'')
      | Some r1 \<Rightarrow>
          (case step_all ops r1 (map Message (takeWhile stored (applyLogStoreQueue c))) of
             None \<Rightarrow> Inl (Panic ''applyLogStoreQueue: step local store message failed'')
           | Some r2 \<Rightarrow>
               Inr (None,
                 c\<lparr>appendLogStoreQueue := dropWhile stored (appendLogStoreQueue c),
                   applyLogStoreQueue := dropWhile stored (applyLogStoreQueue c),
                   rc := r2,
                   lastActivity :=
                     (if takeWhile stored (appendLogStoreQueue c) = []
                        \<and> takeWhile stored (applyLogStoreQueue c) = []
                      then lastActivity c else time_Now ops)\<rparr>)))"
proof (cases "step_all ops (rc c) (map Message (takeWhile stored (appendLogStoreQueue c)))")
  case None
  then show ?thesis using assms
    by (simp add: handleLocalStoreMsgs_def drain_appendLogStoreQueue_eq [OF assms refl])
next
  case (Some r1)
  let ?c1 = "c\<lparr>appendLogStoreQueue := dropWhile stored (appendLogStoreQueue c), rc := r1,
                 lastActivity := (if takeWhile stored (appendLogStoreQueue c) = []
                                  then lastActivity c else time_Now ops)\<rparr>"
  have 1: "drain_appendLogStoreQueue ops c = Inr ?c1"
    using Some by (simp add: drain_appendLogStoreQueue_eq [OF assms refl])
  have d1: "\<not> destroy ?c1" using assms by simp
  have 2: "handleLocalStoreMsgs ops c =
      (case drain_applyLogStoreQueue ops ?c1 of Inl p \<Rightarrow> Inl p | Inr c2 \<Rightarrow> Inr (None, c2))"
    using assms by (simp add: handleLocalStoreMsgs_def 1)
  show ?thesis
    unfolding 2 drain_applyLogStoreQueue_eq [OF d1 refl]
    using Some by (simp split: option.splits)
qed

text \<open>
  C7: on a channel that is not destroyed \<^verbatim>\<open>handleLocalStoreMsgs\<close> pops from each queue
  exactly its longest prefix of stored entries: what it leaves of the append queue and
  of the apply queue is the queue from its first unstored entry on, and what it has
  stepped into the replica is the messages of the popped entries, those of the append
  queue first, then those of the apply queue, each in queue order. It panics exactly
  when one of these steps fails. In particular a queue whose head is not stored is left
  as it is, whatever is stored behind the head.
\<close>

theorem handleLocalStoreMsgs_head_first:
  assumes "\<not> destroy c"
  shows "(\<forall>e c'. handleLocalStoreMsgs ops c = Inr (e, c') \<longrightarrow>
            e = None
          \<and> appendLogStoreQueue c' = dropWhile stored (appendLogStoreQueue c)
          \<and> applyLogStoreQueue c' = dropWhile stored (applyLogStoreQueue c)
          \<and> step_all ops (rc c)
               (map Message (takeWhile stored (appendLogStoreQueue c)) @
                map Message (takeWhile stored (applyLogStoreQueue c))) = Some (rc c'))
    \<and> ((\<exists>p. handleLocalStoreMsgs ops c = Inl p) \<longleftrightarrow>
          step_all ops (rc c)
            (map Message (takeWhile stored (appendLogStoreQueue c)) @
             map Message (takeWhile stored (applyLogStoreQueue c))) = None)
    \<and> (\<forall>m q e c'. appendLogStoreQueue c = m # q \<and> \<not> stored m
          \<and> handleLocalStoreMsgs ops c = Inr (e, c') \<longrightarrow> appendLogStoreQueue c' = m # q)
    \<and> (\<forall>m q e c'. applyLogStoreQueue c = m # q \<and> \<not> stored m
          \<and> handleLocalStoreMsgs ops c = Inr (e, c') \<longrightarrow> applyLogStoreQueue c' = m # q)"
proof -
  let ?A = "map Message (takeWhile stored (appendLogStoreQueue c))"
  let ?B = "map Message (takeWhile stored (applyLogStoreQueue c))"
  note eq = handleLocalStoreMsgs_eq [OF assms, of ops]
  show ?thesis
  proof (cases "step_all ops (rc c) ?A")
    case None
    then have H: "handleLocalStoreMsgs ops c = Inl (Panic ''step local store message failed'')"
      by (simp add: eq)
    from None have S: "step_all ops (rc c) (?A @ ?B) = None"
      by (simp add: step_all_append)
    show ?thesis by (simp add: H S)
  next
    case (Some r1)
    show ?thesis
    proof (cases "step_all ops r1 ?B")
      case None
      then have H: "handleLocalStoreMsgs ops c =
          Inl (Panic ''applyLogStoreQueue: step local store message failed'')"
        using Some by (simp add: eq)
      from None Some have S: "step_all ops (rc c) (?A @ ?B) = None"
        by (simp add: step_all_append)
      show ?thesis by (simp add: H S)
    next
      case r2: (Some r2)
      obtain c2 where H: "handleLocalStoreMsgs ops c = Inr (None, c2)"
        and q1: "appendLogStoreQueue c2 = dropWhile stored (appendLogStoreQueue c)"
        and q2: "applyLogStoreQueue c2 = dropWhile stored (applyLogStoreQueue c)"
        and r: "rc c2 = r2"
        using Some r2 by (simp add: eq)
      from r2 Some have S: "step_all ops (rc c) (?A @ ?B) = Some r2"
        by (simp add: step_all_append)
      have h1: "dropWhile stored (appendLogStoreQueue c) = m # q"
        if "appendLogStoreQueue c = m # q" "\<not> stored m" for m q
        using that by simp
      have h2: "dropWhile stored (applyLogStoreQueue c) = m # q"
        if "applyLogStoreQueue c = m # q" "\<not> stored m" for m q
        using that by simp
      show ?thesis
        apply (simp only: H S)
        apply (intro conjI allI impI)
             apply (simp_all add: q1 q2 r)
        done
    qed
  qed
qed

theorem handleLocalStoreMsgs_head_first_witness:
  "\<not> destroy sample_queued
   \<and> (\<exists>c'. handleLocalStoreMsgs sample_ops sample_queued = Inr (None, c')
        \<and> appendLogStoreQueue c' =
            [\<lparr>Message = sample_message MsgStoreAppendResp 9, stored = False\<rparr>,
             \<lparr>Message = sample_message MsgStoreAppendResp 10, stored = True\<rparr>]
        \<and> applyLogStoreQueue c' =
            [\<lparr>Message = sample_message MsgApplyLogsResp 5, stored = False\<rparr>,
             \<lparr>Message = sample_message MsgApplyLogsResp 6, stored = True\<rparr>]
        \<and> sr_stepped (rc c') = [sample_message MsgStoreAppendResp 8])"
proof -
  have d: "\<not> destroy sample_queued"
    by (simp add: sample_queued_def sample_channel_def)
  note H = handleLocalStoreMsgs_head_first [OF d, of sample_ops]
  have a: "appendLogStoreQueue sample_queued =
        [\<lparr>Message = sample_message MsgStoreAppendResp 8, stored = True\<rparr>,
         \<lparr>Message = sample_message MsgStoreAppendResp 9, stored = False\<rparr>,
         \<lparr>Message = sample_message MsgStoreAppendResp 10, stored = True\<rparr>]"
    by (simp add: sample_queued_def)
  have b: "applyLogStoreQueue sample_queued =
        [\<lparr>Message = sample_message MsgApplyLogsResp 5, stored = False\<rparr>,
         \<lparr>Message = sample_message MsgApplyLogsResp 6, stored = True\<rparr>]"
    by (simp add: sample_queued_def)
  have r0: "rc sample_queued = \<lparr>sr_lastLogIndex = 7, sr_term = 3, sr_stepped = []\<rparr>"
    by (simp add: sample_queued_def sample_channel_def)
  have s: "step_all sample_ops (rc sample_queued)
            (map Message (takeWhile stored (appendLogStoreQueue sample_queued)) @
             map Message (takeWhile stored (applyLogStoreQueue sample_queued))) =
           Some \<lparr>sr_lastLogIndex = 7, sr_term = 3,
                 sr_stepped = [sample_message MsgStoreAppendResp 8]\<rparr>"
    unfolding a b r0 by (simp add: sample_ops_def)
  from H [THEN conjunct2, THEN conjunct1] s
  have "\<not> (\<exists>p. handleLocalStoreMsgs sample_ops sample_queued = Inl p)"
    by simp
  then obtain e c' where r: "handleLocalStoreMsgs sample_ops sample_queued = Inr (e, c')"
    by (cases "handleLocalStoreMsgs sample_ops sample_queued") auto
  note R = H [THEN conjunct1, rule_format, OF r]
  from R have e: "e = None" by (rule conjunct1)
  from R have q1: "appendLogStoreQueue c' = dropWhile stored (appendLogStoreQueue sample_queued)"
    by (elim conjE)
  from R have q2: "applyLogStoreQueue c' = dropWhile stored (applyLogStoreQueue sample_queued)"
    by (elim conjE)
  from R have st: "step_all sample_ops (rc sample_queued)
            (map Message (takeWhile stored (appendLogStoreQueue sample_queued)) @
             map Message (takeWhile stored (applyLogStoreQueue sample_queued))) = Some (rc c')"
    by (elim conjE)
  from st s have rc': "rc c' = \<lparr>sr_lastLogIndex = 7, sr_term = 3,
                 sr_stepped = [sample_message MsgStoreAppendResp 8]\<rparr>"
    by simp
  have "handleLocalStoreMsgs sample_ops sample_queued = Inr (None, c')
        \<and> appendLogStoreQueue c' =
            [\<lparr>Message = sample_message MsgStoreAppendResp 9, stored = False\<rparr>,
             \<lparr>Message = sample_message MsgStoreAppendResp 10, stored = True\<rparr>]
        \<and> applyLogStoreQueue c' =
            [\<lparr>Message = sample_message MsgApplyLogsResp 5, stored = False\<rparr>,
             \<lparr>Message = sample_message MsgApplyLogsResp 6, stored = True\<rparr>]
        \<and> sr_stepped (rc c') = [sample_message MsgStoreAppendResp 8]"
    using r e q1 q2 rc' by (simp add: a b)
  then show ?thesis using d by blast
qed

subsection \<open>A failed write of the applied index\<close>

text \<open>
  When \<^verbatim>\<open>setAppliedIndex\<close> fails, \<^verbatim>\<open>applyLogs\<close> does not panic: it has signalled the
  commit wait, and it returns with both queues as they were.
\<close>

lemma applyLogs_setAppliedIndex_failure:
  assumes "ls_setAppliedIndex ops (localstorage c)
             (ChannelKey ops (channelID c) (channelType c)) (CommittedIndex msg) = (Some err, ls')"
  shows "applyLogs ops c msg =
     Inr (c\<lparr>commitWait := cw_commitIndex ops (commitWait c) (CommittedIndex msg),
            localstorage := ls'\<rparr>)"
  using assms by (simp add: applyLogs_def Let_def)

text \<open>
  The entry that \<^verbatim>\<open>handleApplyLogsReq\<close> enqueued for the failed apply is thereby left
  unstored, and a later apply for another index does not move it from the head of the
  queue.
\<close>

lemma setStored_other_head:
  "MsgIndex (Message e) \<noteq> index \<Longrightarrow> \<exists>found q'. setStored (e # q) index = (found, e # q')"
  by (simp split: prod.splits)

lemma applyLogs_keeps_stranded_head:
  assumes "applyLogStoreQueue c = e # es"
    and "MsgIndex (Message e) \<noteq> CommittedIndex msg"
    and "applyLogs ops (handleApplyLogsReq ops c msg) msg = Inr c'"
  shows "\<exists>es'. applyLogStoreQueue c' = e # es'"
proof -
  have "\<exists>es0. applyLogStoreQueue (handleApplyLogsReq ops c msg) = e # es0"
    using assms(1) by (simp add: handleApplyLogsReq_def add_def)
  then obtain es0 where q0: "applyLogStoreQueue (handleApplyLogsReq ops c msg) = e # es0"
    by blast
  obtain found q' where s: "setStored (e # es0) (CommittedIndex msg) = (found, e # q')"
    using setStored_other_head [OF assms(2)] by blast
  show ?thesis
    using assms(3) q0 s
    by (auto simp: applyLogs_def Let_def split: prod.splits option.splits bool.splits)
qed

lemma sample_failure_step:
  "applyLogs sample_ops (handleApplyLogsReq sample_ops sample_failing_storage (sample_apply_req 1))
      (sample_apply_req 1) = Inr sample_after_failure"
  by (simp add: applyLogs_def handleApplyLogsReq_def sample_failing_storage_def
      sample_after_failure_def sample_apply_req_def sample_ops_def sample_channel_def
      sample_message_def add_def)

lemma sample_next_apply_step:
  "applyLogs sample_ops (handleApplyLogsReq sample_ops sample_after_failure (sample_apply_req 2))
      (sample_apply_req 2) = Inr sample_after_next_apply"
  by (simp add: applyLogs_def handleApplyLogsReq_def sample_after_next_apply_def
      sample_after_failure_def sample_apply_req_def sample_ops_def sample_channel_def
      sample_message_def add_def)

lemma sample_drain_after_next_apply:
  "handleLocalStoreMsgs sample_ops sample_after_next_apply = Inr (None, sample_after_next_apply)"
proof -
  have d: "\<not> destroy sample_after_next_apply"
    by (simp add: sample_after_next_apply_def sample_channel_def)
  have q: "applyLogStoreQueue sample_after_next_apply =
      [\<lparr>Message = sample_message MsgApplyLogsResp 1, stored = False\<rparr>,
       \<lparr>Message = sample_message MsgApplyLogsResp 2, stored = True\<rparr>]"
    "appendLogStoreQueue sample_after_next_apply = []"
    by (simp_all add: sample_after_next_apply_def sample_channel_def)
  show ?thesis
    unfolding handleLocalStoreMsgs_eq [OF d] q
    by (simp add: sample_after_next_apply_def sample_channel_def sample_ops_def)
qed

text \<open>
  A repeated request for the same index does not help either: its \<^verbatim>\<open>applyLogs\<close> marks
  the entry of the failed apply, \<^verbatim>\<open>handleLocalStoreMsgs\<close> pops that one, and the entry
  of the repeated request stays behind unstored.
\<close>

lemma sample_retry_step:
  "applyLogs sample_ops (handleApplyLogsReq sample_ops sample_after_failure (sample_apply_req 1))
      (sample_apply_req 1) = Inr sample_after_retry"
  by (simp add: applyLogs_def handleApplyLogsReq_def sample_after_retry_def
      sample_after_failure_def sample_apply_req_def sample_ops_def sample_channel_def
      sample_message_def add_def)

lemma sample_drain_after_retry:
  "handleLocalStoreMsgs sample_ops sample_after_retry = Inr (None, sample_after_retry_drained)
   \<and> handleLocalStoreMsgs sample_ops sample_after_retry_drained =
       Inr (None, sample_after_retry_drained)"
proof -
  have d: "\<not> destroy sample_after_retry" "\<not> destroy sample_after_retry_drained"
    by (simp_all add: sample_after_retry_drained_def sample_after_retry_def sample_channel_def)
  have q: "applyLogStoreQueue sample_after_retry =
      [\<lparr>Message = sample_message MsgApplyLogsResp 1, stored = True\<rparr>,
       \<lparr>Message = sample_message MsgApplyLogsResp 1, stored = False\<rparr>]"
    "appendLogStoreQueue sample_after_retry = []"
    "applyLogStoreQueue sample_after_retry_drained =
      [\<lparr>Message = sample_message MsgApplyLogsResp 1, stored = False\<rparr>]"
    "appendLogStoreQueue sample_after_retry_drained = []"
    by (simp_all add: sample_after_retry_drained_def sample_after_retry_def sample_channel_def)
  have 1: "handleLocalStoreMsgs sample_ops sample_after_retry =
      Inr (None, sample_after_retry_drained)"
    unfolding handleLocalStoreMsgs_eq [OF d(1)] q
    by (simp add: sample_after_retry_drained_def sample_after_retry_def sample_channel_def
        sample_ops_def)
  have 2: "handleLocalStoreMsgs sample_ops sample_after_retry_drained =
      Inr (None, sample_after_retry_drained)"
    unfolding handleLocalStoreMsgs_eq [OF d(2)] q
    by (simp add: sample_after_retry_drained_def sample_after_retry_def sample_channel_def
        sample_ops_def)
  show ?thesis using 1 2 by simp
qed

text \<open>
  C6, evaluated on the code: the request to apply up to 1 is handled and its
  \<^verbatim>\<open>applyLogs\<close> meets a failing \<^verbatim>\<open>setAppliedIndex\<close>. The call returns normally, the
  waiter for index 1 has been signalled, and the response for 1 stays in the apply
  queue, unstored. The next request, to apply up to 2, succeeds: the applied index 2
  is written and the response for 2 is marked stored. Yet \<^verbatim>\<open>handleLocalStoreMsgs\<close>
  then pops nothing and steps nothing, because the head of the queue is the entry the
  failed apply left behind: the replica is never told that anything was applied.
\<close>

theorem applyLogs_failure_strands_queue_entry:
  "applyLogs sample_ops (handleApplyLogsReq sample_ops sample_failing_storage (sample_apply_req 1))
      (sample_apply_req 1) = Inr sample_after_failure
   \<and> commitWait sample_after_failure = []
   \<and> applyLogStoreQueue sample_after_failure =
        [\<lparr>Message = sample_message MsgApplyLogsResp 1, stored = False\<rparr>]
   \<and> applyLogs sample_ops (handleApplyLogsReq sample_ops sample_after_failure (sample_apply_req 2))
      (sample_apply_req 2) = Inr sample_after_next_apply
   \<and> localstorage sample_after_next_apply = (0, 2)
   \<and> applyLogStoreQueue sample_after_next_apply =
        [\<lparr>Message = sample_message MsgApplyLogsResp 1, stored = False\<rparr>,
         \<lparr>Message = sample_message MsgApplyLogsResp 2, stored = True\<rparr>]
   \<and> handleLocalStoreMsgs sample_ops sample_after_next_apply = Inr (None, sample_after_next_apply)
   \<and> sr_stepped (rc sample_after_next_apply) = []"
  by (simp add: sample_failure_step sample_next_apply_step sample_drain_after_next_apply)
    (simp add: sample_after_failure_def sample_after_next_apply_def sample_channel_def)

subsection \<open>Waiting for the loop's answer\<close>


















end
